theory Spec2Isabelle
  imports Main "HOL-Library.Option_ord" "HOL-Library.Char_ord" "HOL-Library.List_Lexorder"
begin

section \<open>The relational store behind COAD\<close>

text \<open>
  \<^verbatim>\<open>COAD.py\<close> keeps a PLEXOS model in a SQLite database and reads and writes it through
  SQL statements. The store is modelled as a record of tables, each table a list of rows in
  table order. Identifier columns (\<^verbatim>\<open>*_id\<close>, \<^verbatim>\<open>uid\<close>) are declared \<^verbatim>\<open>INTEGER\<close> by the loader
  and every other column \<^verbatim>\<open>TEXT\<close>, so identifiers are \<open>int\<close> and all other fields are text.
  Columns the code tests for \<^verbatim>\<open>NULL\<close> are options.
\<close>

text \<open>
  The Python values that reach the store from a caller: an \<^verbatim>\<open>int\<close> or a \<^verbatim>\<open>str\<close>. They are
  different values even when they print alike: \<^verbatim>\<open>1 == '1'\<close> is false.
\<close>

datatype pyval = PInt int | PStr string

datatype error =
    NoSuchClass string
  | NoSuchObject string string
  | NoSuchAttribute string string
  | DuplicateProperty string string
  | NoSuchConfig string
  | NotInMask pyval "string list"
  | OverwriteTaggedList
  | NotValidProperty string string
  | NoMembership string string
  | ListForSingle
  | SingleForList
  | LengthMismatch nat nat
  | CannotTagSystem
  | CannotUntagSystem
  | TypeError
  | KeyError
  | AttributeError
  | StopIteration
  | OverflowError
  | SqlError

record class_row =
  c_class_id :: int
  c_name :: string

record object_row =
  o_object_id :: int
  o_class_id :: int
  o_name :: string

record collection_row =
  col_collection_id :: int
  col_parent_class_id :: int
  col_child_class_id :: int

record membership_row =
  m_membership_id :: int
  m_parent_object_id :: int
  m_child_object_id :: int

record property_row =
  p_property_id :: int
  p_collection_id :: int
  p_name :: string
  p_input_mask :: "string option"
  p_is_dynamic :: "string option"
  p_is_enabled :: "string option"

record data_row =
  d_data_id :: int
  d_uid :: "int option"
  d_membership_id :: int
  d_property_id :: int
  d_value :: string

record band_row =
  b_data_id :: int
  b_band_id :: int

record tag_row =
  t_data_id :: int
  t_object_id :: int

record text_row =
  x_data_id :: int
  x_value :: string

record attribute_row =
  a_attribute_id :: int
  a_name :: string

record attribute_data_row =
  ad_object_id :: int
  ad_attribute_id :: int
  ad_value :: string

record config_row =
  cfg_element :: string
  cfg_value :: string

record db =
  classes :: "class_row list"
  objects :: "object_row list"
  collections :: "collection_row list"
  memberships :: "membership_row list"
  properties :: "property_row list"
  data :: "data_row list"
  bands :: "band_row list"
  tags :: "tag_row list"
  texts :: "text_row list"
  attributes :: "attribute_row list"
  attribute_data :: "attribute_data_row list"
  config :: "config_row list"

text \<open>
  A \<^verbatim>\<open>COAD\<close> object holds the connection \<^verbatim>\<open>dbcon\<close>, the list of table names read once
  at construction (\<^verbatim>\<open>table_list\<close>) and the flag \<^verbatim>\<open>has_data_uid\<close>. A SQLite connection of
  Python's \<^verbatim>\<open>sqlite3\<close> opens a transaction at the first \<^verbatim>\<open>INSERT\<close>, \<^verbatim>\<open>UPDATE\<close> or
  \<^verbatim>\<open>DELETE\<close> and keeps it open until \<^verbatim>\<open>commit()\<close>: \<open>working\<close> is what the connection
  reads and writes, \<open>durable\<close> is what has been committed.
\<close>

record coad =
  table_list :: "string list"
  has_data_uid :: bool
  durable :: db
  working :: db

definition has_table :: "coad \<Rightarrow> string \<Rightarrow> bool" where
  "has_table c t = (t \<in> set (table_list c))"

definition commit :: "coad \<Rightarrow> coad" where
  "commit c = c\<lparr>durable := working c\<rparr>"

definition and_then :: "error + 'a \<Rightarrow> ('a \<Rightarrow> error + 'b) \<Rightarrow> error + 'b" where
  "and_then r f = (case r of Inl e \<Rightarrow> Inl e | Inr x \<Rightarrow> f x)"

subsection \<open>Python helpers\<close>

text \<open>\<^verbatim>\<open>s.split(sep)\<close> for a one-character separator.\<close>

fun py_split :: "char \<Rightarrow> string \<Rightarrow> string list" where
  "py_split sep [] = [[]]"
| "py_split sep (x # xs) =
     (if x = sep then [] # py_split sep xs
      else (case py_split sep xs of [] \<Rightarrow> [[x]] | w # ws \<Rightarrow> (x # w) # ws))"

text \<open>\<^verbatim>\<open>s.strip("\"")\<close>: double quotes removed at both ends.\<close>

definition strip_quote :: "string \<Rightarrow> string" where
  "strip_quote s =
     rev (dropWhile (\<lambda>ch. ch = CHR 0x22) (rev (dropWhile (\<lambda>ch. ch = CHR 0x22) s)))"

text \<open>\<^verbatim>\<open>str(n)\<close> for an integer.\<close>

fun digits :: "nat \<Rightarrow> nat \<Rightarrow> string" where
  "digits 0 n = []"
| "digits (Suc fuel) n =
     (if n < 10 then [char_of (48 + n)]
      else digits fuel (n div 10) @ [char_of (48 + n mod 10)])"

definition str :: "int \<Rightarrow> string" where
  "str i = (if i < 0 then CHR ''-'' # digits (Suc (nat (- i))) (nat (- i))
            else digits (Suc (nat i)) (nat i))"

text \<open>
  A Python \<^verbatim>\<open>dict\<close> keeps its keys in insertion order; assigning to a key that is
  present replaces the value in place.
\<close>

fun dict_set :: "'k \<Rightarrow> 'v \<Rightarrow> ('k \<times> 'v) list \<Rightarrow> ('k \<times> 'v) list" where
  "dict_set k v [] = [(k, v)]"
| "dict_set k v ((k', v') # kvs) =
     (if k = k' then (k, v) # kvs else (k', v') # dict_set k v kvs)"

definition dict_has :: "'k \<Rightarrow> ('k \<times> 'v) list \<Rightarrow> bool" where
  "dict_has k kvs = (k \<in> set (map fst kvs))"

definition fetchone :: "'a list \<Rightarrow> 'a option" where
  "fetchone rows = (case rows of [] \<Rightarrow> None | r # _ \<Rightarrow> Some r)"

subsection \<open>Classes and objects\<close>

text \<open>
  \<^verbatim>\<open>ClassDict.__init__\<close> collects, for every collection whose child is the class, the
  properties of that collection under the parent class's name (\<^verbatim>\<open>valid_properties\<close>), and
  inverts it by property name (\<^verbatim>\<open>valid_properties_by_name\<close>). Property identifiers are
  kept as \<open>int\<close>; the source turns them into strings, which matters only where one is
  compared with a class name, and there \<open>str\<close> is applied.
\<close>

record classdict =
  meta :: class_row
  valid_properties :: "(string \<times> (int \<times> property_row) list) list"
  valid_properties_by_name :: "(string \<times> (string \<times> int) list) list"

fun add_properties ::
  "string \<Rightarrow> string \<Rightarrow> property_row list \<Rightarrow> (string \<times> (int \<times> property_row) list) list
   \<Rightarrow> error + (string \<times> (int \<times> property_row) list) list" where
  "add_properties cname parent_name [] vp = Inr vp"
| "add_properties cname parent_name (prop # rows) vp =
     (let vp1 = (if dict_has parent_name vp then vp else dict_set parent_name [] vp) in
      if dict_has (str (p_property_id prop)) vp1 then Inl (DuplicateProperty (p_name prop) cname)
      else (case map_of vp1 parent_name of
              None \<Rightarrow> Inl KeyError
            | Some props \<Rightarrow>
                add_properties cname parent_name rows
                  (dict_set parent_name (dict_set (p_property_id prop) prop props) vp1)))"

fun collect_properties ::
  "db \<Rightarrow> string \<Rightarrow> collection_row list \<Rightarrow> (string \<times> (int \<times> property_row) list) list
   \<Rightarrow> error + (string \<times> (int \<times> property_row) list) list" where
  "collect_properties d cname [] vp = Inr vp"
| "collect_properties d cname (coll # colls) vp =
     (case fetchone (filter (\<lambda>r. c_class_id r = col_parent_class_id coll) (classes d)) of
        None \<Rightarrow> Inl TypeError
      | Some parent \<Rightarrow>
          and_then
            (add_properties cname (c_name parent)
               (filter (\<lambda>r. p_collection_id r = col_collection_id coll) (properties d)) vp)
            (collect_properties d cname colls))"

fun names_of_parent ::
  "string \<Rightarrow> string \<Rightarrow> (int \<times> property_row) list \<Rightarrow> (string \<times> (string \<times> int) list) list
   \<Rightarrow> error + (string \<times> (string \<times> int) list) list" where
  "names_of_parent cname p [] bn = Inr bn"
| "names_of_parent cname p ((k, v) # kvs) bn =
     (if dict_has (p_name v) bn then Inl (DuplicateProperty (p_name v) cname)
      else (case map_of bn p of
              None \<Rightarrow> Inl KeyError
            | Some names \<Rightarrow>
                names_of_parent cname p kvs (dict_set p (dict_set (p_name v) k names) bn)))"

fun properties_by_name ::
  "string \<Rightarrow> (string \<times> (int \<times> property_row) list) list \<Rightarrow> (string \<times> (string \<times> int) list) list
   \<Rightarrow> error + (string \<times> (string \<times> int) list) list" where
  "properties_by_name cname [] bn = Inr bn"
| "properties_by_name cname ((p, pv) # rest) bn =
     and_then (names_of_parent cname p pv (dict_set p [] bn)) (properties_by_name cname rest)"

definition ClassDict :: "coad \<Rightarrow> class_row \<Rightarrow> error + classdict" where
  "ClassDict c cm =
     and_then
       (collect_properties (working c) (c_name cm)
          (filter (\<lambda>r. col_child_class_id r = c_class_id cm) (collections (working c))) [])
       (\<lambda>vp. and_then (properties_by_name (c_name cm) vp [])
          (\<lambda>bn. Inr \<lparr>meta = cm, valid_properties = vp, valid_properties_by_name = bn\<rparr>))"

text \<open>\<^verbatim>\<open>COAD.__getitem__\<close>: the class of that name, or an exception.\<close>

definition COAD_getitem :: "coad \<Rightarrow> string \<Rightarrow> error + classdict" where
  "COAD_getitem c key =
     (case fetchone (filter (\<lambda>r. c_name r = key) (classes (working c))) of
        None \<Rightarrow> Inl (NoSuchClass key)
      | Some cm \<Rightarrow> ClassDict c cm)"

definition get_by_class_id :: "coad \<Rightarrow> int \<Rightarrow> error + classdict" where
  "get_by_class_id c class_id =
     (case fetchone (filter (\<lambda>r. c_class_id r = class_id) (classes (working c))) of
        None \<Rightarrow> Inl TypeError
      | Some r \<Rightarrow> COAD_getitem c (c_name r))"

text \<open>
  \<^verbatim>\<open>ObjectDict.__init__\<close> looks the class up (for \<^verbatim>\<open>hierarchy\<close>) and loads the attribute
  values of the object into \<^verbatim>\<open>store\<close> when the table \<^verbatim>\<open>attribute_data\<close> exists. An
  \<^verbatim>\<open>ObjectDict\<close> is represented by its \<^verbatim>\<open>meta\<close>, the row of the object.
\<close>

definition get_class :: "coad \<Rightarrow> object_row \<Rightarrow> error + classdict" where
  "get_class c ob = get_by_class_id c (o_class_id ob)"

definition store :: "coad \<Rightarrow> object_row \<Rightarrow> (string \<times> string) list" where
  "store c ob =
     (if has_table c ''attribute_data'' then
        foldl (\<lambda>st (k, v). dict_set k v st) []
          [(a_name a, ad_value ad).
             ad \<leftarrow> attribute_data (working c), a \<leftarrow> attributes (working c),
             a_attribute_id a = ad_attribute_id ad, ad_object_id ad = o_object_id ob]
      else [])"

definition ObjectDict :: "coad \<Rightarrow> object_row \<Rightarrow> error + object_row" where
  "ObjectDict c ob = and_then (get_class c ob) (\<lambda>_. Inr ob)"

definition ClassDict_getitem :: "coad \<Rightarrow> classdict \<Rightarrow> string \<Rightarrow> error + object_row" where
  "ClassDict_getitem c cd key =
     (case fetchone (filter (\<lambda>r. o_class_id r = c_class_id (meta cd) \<and> o_name r = key)
                       (objects (working c))) of
        None \<Rightarrow> Inl (NoSuchObject key (c_name (meta cd)))
      | Some ob \<Rightarrow> ObjectDict c ob)"

text \<open>
  \<^verbatim>\<open>get_by_hierarchy\<close> splits the identifier at \<^verbatim>\<open>.\<close>. The test
  \<^verbatim>\<open>hier[0] not in self\<close> goes through \<^verbatim>\<open>Mapping.__contains__\<close>, which calls
  \<^verbatim>\<open>__getitem__\<close> and catches only \<^verbatim>\<open>KeyError\<close>; \<^verbatim>\<open>__getitem__\<close> raises a plain
  \<^verbatim>\<open>Exception\<close> for an unknown class, so an unknown class (or object) raises at the
  test itself and the split at \<^verbatim>\<open>|\<close> is never reached.
\<close>

datatype hier = HClass classdict | HObject object_row | HAttr string

definition get_by_hierarchy :: "coad \<Rightarrow> string \<Rightarrow> error + hier" where
  "get_by_hierarchy c identifier =
     (case py_split CHR ''.'' identifier of
        [] \<Rightarrow> Inl KeyError
      | [h0] \<Rightarrow> and_then (COAD_getitem c h0) (\<lambda>cd. Inr (HClass cd))
      | h0 # h1 # rest \<Rightarrow>
          and_then (COAD_getitem c h0) (\<lambda>cd.
          and_then (ClassDict_getitem c cd h1) (\<lambda>ob.
            (case rest of
               [] \<Rightarrow> Inr (HObject ob)
             | h2 # _ \<Rightarrow>
                 (case map_of (store c ob) h2 of
                    None \<Rightarrow> Inl (NoSuchAttribute h2 h1)
                  | Some v \<Rightarrow> Inr (HAttr v))))))"

text \<open>
  What the callers of \<^verbatim>\<open>get_by_hierarchy\<close> then do with the result,
  \<^verbatim>\<open>tag_obj.meta['object_id']\<close> or \<^verbatim>\<open>tag_obj.get_class()\<close>, works for an object only.
\<close>

definition as_object :: "hier \<Rightarrow> error + object_row" where
  "as_object h = (case h of HObject ob \<Rightarrow> Inr ob | HClass _ \<Rightarrow> Inl KeyError | HAttr _ \<Rightarrow> Inl AttributeError)"

text \<open>
  \<^verbatim>\<open>get_hierarchy_for_object_id\<close>. The source memoises the answer; no operation modelled
  here changes the tables \<^verbatim>\<open>object\<close> and \<^verbatim>\<open>class\<close>, so the memo is left out.
\<close>

definition get_hierarchy_for_object_id :: "coad \<Rightarrow> int \<Rightarrow> error + string" where
  "get_hierarchy_for_object_id c object_id =
     (case fetchone
             [(o_name ob, c_name cl).
                ob \<leftarrow> objects (working c), cl \<leftarrow> classes (working c),
                c_class_id cl = o_class_id ob, o_object_id ob = object_id] of
        None \<Rightarrow> Inl TypeError
      | Some (oname, cname) \<Rightarrow> Inr (cname @ ''.'' @ oname))"

subsection \<open>The view \<^verbatim>\<open>property_view\<close>\<close>

text \<open>
  \<^verbatim>\<open>plexos_database.load\<close> creates the view when the file has a \<^verbatim>\<open>data\<close> table: \<^verbatim>\<open>data\<close>
  joined with \<^verbatim>\<open>property\<close> and \<^verbatim>\<open>membership\<close>, and left-joined with \<^verbatim>\<open>tag\<close>, \<^verbatim>\<open>text\<close> and
  \<^verbatim>\<open>band\<close> where those tables exist (the column is \<^verbatim>\<open>NULL\<close> otherwise). Rows come in the
  nested-loop order of the \<^verbatim>\<open>FROM\<close> clause; \<^verbatim>\<open>ORDER BY band_id\<close> is a stable sort with
  \<^verbatim>\<open>NULL\<close> first, as SQLite sorts it.
\<close>

record view_row =
  v_data_id :: int
  v_value :: string
  v_name :: string
  v_input_mask :: "string option"
  v_child_object_id :: int
  v_parent_object_id :: int
  v_tag_object_id :: "int option"
  v_text_value :: "string option"
  v_band_id :: "int option"

definition left_join :: "bool \<Rightarrow> 'a list \<Rightarrow> 'a option list" where
  "left_join present rows = (if present \<and> rows \<noteq> [] then map Some rows else [None])"

definition view_rows :: "coad \<Rightarrow> data_row \<Rightarrow> view_row list" where
  "view_rows c d =
     [\<lparr>v_data_id = d_data_id d, v_value = d_value d, v_name = p_name p,
       v_input_mask = p_input_mask p, v_child_object_id = m_child_object_id m,
       v_parent_object_id = m_parent_object_id m, v_tag_object_id = map_option t_object_id t,
       v_text_value = map_option x_value x, v_band_id = map_option b_band_id b\<rparr>.
        p \<leftarrow> filter (\<lambda>p. p_property_id p = d_property_id d) (properties (working c)),
        m \<leftarrow> filter (\<lambda>m. m_membership_id m = d_membership_id d) (memberships (working c)),
        t \<leftarrow> left_join (has_table c ''tag'')
               (filter (\<lambda>t. t_data_id t = d_data_id d) (tags (working c))),
        x \<leftarrow> left_join (has_table c ''text'')
               (filter (\<lambda>x. x_data_id x = d_data_id d) (texts (working c))),
        b \<leftarrow> left_join (has_table c ''band'')
               (filter (\<lambda>b. b_data_id b = d_data_id d) (bands (working c)))]"

definition property_view :: "coad \<Rightarrow> view_row list" where
  "property_view c = concat (map (view_rows c) (data (working c)))"

definition order_by_band :: "coad \<Rightarrow> view_row list \<Rightarrow> view_row list" where
  "order_by_band c rows = (if has_data_uid c then sort_key v_band_id rows else rows)"

subsection \<open>Reading properties\<close>

text \<open>
  An \<^verbatim>\<open>input_mask\<close> is a text \<^verbatim>\<open>code;"label";code;"label";...\<close>. Both readers walk the
  split list two elements at a time with \<^verbatim>\<open>for k in it: ... next(it)\<close>; a list of odd
  length ends in \<^verbatim>\<open>StopIteration\<close>.
\<close>

fun mask_pairs :: "string list \<Rightarrow> error + (string \<times> string) list" where
  "mask_pairs [] = Inr []"
| "mask_pairs [k] = Inl StopIteration"
| "mask_pairs (k # v # rest) =
     and_then (mask_pairs rest) (\<lambda>ps. Inr ((k, strip_quote v) # ps))"

text \<open>The dictionary \<^verbatim>\<open>valdict\<close>: a later pair overwrites an earlier one with the same code.\<close>

definition valdict_of :: "string option \<Rightarrow> error + (string \<times> string) list" where
  "valdict_of input_mask =
     (case input_mask of
        None \<Rightarrow> Inr []
      | Some msk \<Rightarrow>
          if msk = [] then Inr []
          else and_then (mask_pairs (py_split CHR '';'' msk))
                 (\<lambda>ps. Inr (foldl (\<lambda>vd (k, v). dict_set k v vd) [] ps)))"

definition valmap :: "(string \<times> string) list \<Rightarrow> string \<Rightarrow> string" where
  "valmap valdict val = (case map_of valdict val of Some v \<Rightarrow> v | None \<Rightarrow> val)"

text \<open>A value of a property, read or written: one value, or a Python list of values.\<close>

datatype 'a prop_value = Single 'a | Multi "'a list"

datatype tag_arg = TagObject object_row | TagName string

definition resolve_tag :: "coad \<Rightarrow> tag_arg \<Rightarrow> error + object_row" where
  "resolve_tag c tag =
     (case tag of
        TagObject ob \<Rightarrow> Inr ob
      | TagName identifier \<Rightarrow> and_then (get_by_hierarchy c identifier) as_object)"

text \<open>The rows \<^verbatim>\<open>get_property\<close> selects: the object's rows of that property name whose
  membership parent or tag is the owner.\<close>

definition select_property :: "coad \<Rightarrow> int \<Rightarrow> string \<Rightarrow> int \<Rightarrow> view_row list" where
  "select_property c child name owner =
     order_by_band c
       (filter (\<lambda>r. (v_child_object_id r = child \<and> v_name r = name) \<and>
                     (v_parent_object_id r = owner \<or> v_tag_object_id r = Some owner))
          (property_view c))"

definition get_property ::
  "coad \<Rightarrow> object_row \<Rightarrow> string \<Rightarrow> tag_arg \<Rightarrow> error + string prop_value option" where
  "get_property c self name tag =
     (if \<not> has_table c ''data'' then Inr None
      else
        and_then (resolve_tag c tag) (\<lambda>tag_obj.
          let all_data = select_property c (o_object_id self) name (o_object_id tag_obj) in
          and_then (case all_data of [] \<Rightarrow> Inr [] | r # _ \<Rightarrow> valdict_of (v_input_mask r))
            (\<lambda>valdict.
               let mapped_data = map (\<lambda>r. valmap valdict (v_value r)) all_data in
               (case mapped_data of
                  [] \<Rightarrow> Inr None
                | [v] \<Rightarrow> Inr (Some (Single v))
                | _ \<Rightarrow> Inr (Some (Multi mapped_data))))))"

text \<open>
  \<^verbatim>\<open>get_properties\<close>: every property of the object, grouped by owner hierarchy. The values
  of one property are appended in the order in which the query yields its rows. That order
  is not fixed by the statement: it has no \<^verbatim>\<open>ORDER BY\<close> when the data has no \<^verbatim>\<open>uid\<close>, and
  \<^verbatim>\<open>ORDER BY band_id\<close> leaves the order of rows of one band open; SQLite yields them as its
  query plan for the joins of the view visits them. \<open>plan\<close> stands for that choice: it
  arranges the rows of the view before they are sorted.
\<close>

definition add_value ::
  "string \<Rightarrow> string \<Rightarrow> (string \<times> string prop_value) list \<Rightarrow> (string \<times> string prop_value) list" where
  "add_value name val props =
     (case map_of props name of
        None \<Rightarrow> dict_set name (Single val) props
      | Some (Single v) \<Rightarrow> dict_set name (Multi [v, val]) props
      | Some (Multi vs) \<Rightarrow> dict_set name (Multi (vs @ [val])) props)"

fun collect_rows ::
  "coad \<Rightarrow> view_row list \<Rightarrow> (string \<times> (string \<times> string prop_value) list) list
   \<Rightarrow> error + (string \<times> (string \<times> string prop_value) list) list" where
  "collect_rows c [] props = Inr props"
| "collect_rows c (r # rows) props =
     and_then
       (get_hierarchy_for_object_id c
          (case v_tag_object_id r of
             None \<Rightarrow> v_parent_object_id r
           | Some t \<Rightarrow> if t \<noteq> 0 then t else v_parent_object_id r))
       (\<lambda>map_hier.
          let props1 = (if dict_has map_hier props then props else dict_set map_hier [] props) in
          and_then (valdict_of (v_input_mask r)) (\<lambda>valdict.
            (case map_of props1 map_hier of
               None \<Rightarrow> Inl KeyError
             | Some names \<Rightarrow>
                 collect_rows c rows
                   (dict_set map_hier (add_value (v_name r) (valmap valdict (v_value r)) names)
                      props1))))"

definition get_properties ::
  "(view_row list \<Rightarrow> view_row list) \<Rightarrow> coad \<Rightarrow> object_row
   \<Rightarrow> error + (string \<times> (string \<times> string prop_value) list) list" where
  "get_properties plan c self =
     (if \<not> has_table c ''data'' then Inr []
      else collect_rows c
             (order_by_band c
                (plan (filter (\<lambda>r. v_child_object_id r = o_object_id self) (property_view c)))) [])"

subsection \<open>The configuration table\<close>

definition get_config :: "coad \<Rightarrow> string \<Rightarrow> error + string" where
  "get_config c key =
     (if \<not> has_table c ''config'' then Inl SqlError
      else (case fetchone (filter (\<lambda>r. cfg_element r = key) (config (working c))) of
              None \<Rightarrow> Inl (NoSuchConfig key)
            | Some row \<Rightarrow> Inr (cfg_value row)))"

text \<open>\<^verbatim>\<open>UPDATE config SET value=? WHERE element=?\<close>, then \<^verbatim>\<open>commit\<close>, then \<^verbatim>\<open>return value\<close>.\<close>

definition update_config :: "string \<Rightarrow> string \<Rightarrow> db \<Rightarrow> db" where
  "update_config key val d =
     d\<lparr>config := map (\<lambda>r. if cfg_element r = key then r\<lparr>cfg_value := val\<rparr> else r) (config d)\<rparr>"

definition set_config :: "coad \<Rightarrow> string \<Rightarrow> string \<Rightarrow> (error + string) \<times> coad" where
  "set_config c key val =
     (if \<not> has_table c ''config'' then (Inl SqlError, c)
      else (Inr val, commit (c\<lparr>working := update_config key val (working c)\<rparr>)))"

subsection \<open>Writing properties\<close>

text \<open>
  \<^verbatim>\<open>get_mask_value\<close>, the local function of \<^verbatim>\<open>set_property\<close>: the code whose label is the
  value, or an exception that lists the labels seen. The test is \<^verbatim>\<open>mval == value\<close> between
  the label, a \<^verbatim>\<open>str\<close>, and the value as the caller gave it. Without a mask the value is
  returned as it is.
\<close>

fun mask_lookup :: "pyval \<Rightarrow> string list \<Rightarrow> string list \<Rightarrow> error + pyval" where
  "mask_lookup val [] vv = Inl (NotInMask val vv)"
| "mask_lookup val [k] vv = Inl StopIteration"
| "mask_lookup val (k # v # rest) vv =
     (let mval = strip_quote v in
      if PStr mval = val then Inr (PStr k) else mask_lookup val rest (vv @ [mval]))"

definition get_mask_value :: "pyval \<Rightarrow> string option \<Rightarrow> error + pyval" where
  "get_mask_value val input_mask =
     (case input_mask of
        None \<Rightarrow> Inr val
      | Some msk \<Rightarrow> if msk = [] then Inr val else mask_lookup val (py_split CHR '';'' msk) [])"

fun mask_values :: "pyval list \<Rightarrow> string option \<Rightarrow> error + pyval list" where
  "mask_values [] input_mask = Inr []"
| "mask_values (x # xs) input_mask =
     and_then (get_mask_value x input_mask) (\<lambda>k.
     and_then (mask_values xs input_mask) (\<lambda>ks. Inr (k # ks)))"

definition as_list :: "pyval prop_value \<Rightarrow> pyval list" where
  "as_list val = (case val of Single v \<Rightarrow> [v] | Multi vs \<Rightarrow> vs)"

text \<open>
  The SQL statements of \<^verbatim>\<open>set_property\<close> on the tables. The column \<^verbatim>\<open>value\<close> is declared
  \<^verbatim>\<open>TEXT\<close>: SQLite stores an integer bound to it as its decimal text (\<open>sql_text\<close>). An
  integer bound to a statement must fit 64 bits; Python's \<^verbatim>\<open>sqlite3\<close> raises
  \<^verbatim>\<open>OverflowError\<close> for a larger one.
\<close>

definition sql_text :: "pyval \<Rightarrow> string" where
  "sql_text v = (case v of PInt i \<Rightarrow> str i | PStr s \<Rightarrow> s)"

definition max_int64 :: int where
  "max_int64 = 9223372036854775807"

definition update_data_value :: "string \<Rightarrow> int \<Rightarrow> db \<Rightarrow> db" where
  "update_data_value val data_id d =
     d\<lparr>data := map (\<lambda>r. if d_data_id r = data_id then r\<lparr>d_value := val\<rparr> else r) (data d)\<rparr>"

definition set_is_dynamic :: "string \<Rightarrow> int \<Rightarrow> db \<Rightarrow> db" where
  "set_is_dynamic val property_id d =
     d\<lparr>properties := map (\<lambda>p. if p_property_id p = property_id then p\<lparr>p_is_dynamic := Some val\<rparr> else p)
                        (properties d)\<rparr>"

definition set_is_enabled :: "string \<Rightarrow> int \<Rightarrow> db \<Rightarrow> db" where
  "set_is_enabled val property_id d =
     d\<lparr>properties := map (\<lambda>p. if p_property_id p = property_id then p\<lparr>p_is_enabled := Some val\<rparr> else p)
                        (properties d)\<rparr>"

definition insert_data :: "data_row \<Rightarrow> db \<Rightarrow> db" where
  "insert_data r d = d\<lparr>data := data d @ [r]\<rparr>"

definition insert_band :: "band_row \<Rightarrow> db \<Rightarrow> db" where
  "insert_band r d = d\<lparr>bands := bands d @ [r]\<rparr>"

definition insert_tag :: "tag_row \<Rightarrow> db \<Rightarrow> db" where
  "insert_tag r d = d\<lparr>tags := tags d @ [r]\<rparr>"

text \<open>\<^verbatim>\<open>SELECT MAX(...)\<close>: \<^verbatim>\<open>NULL\<close> (Python's \<^verbatim>\<open>None\<close>) over no rows.\<close>

definition sql_max :: "int list \<Rightarrow> int option" where
  "sql_max xs = (case xs of [] \<Rightarrow> None | x # rest \<Rightarrow> Some (foldl max x rest))"

definition mark_property :: "property_row \<Rightarrow> db \<Rightarrow> db" where
  "mark_property prop d =
     (let d1 = (if p_is_dynamic prop \<noteq> Some ''true''
                then set_is_dynamic ''true'' (p_property_id prop) d else d)
      in if p_is_enabled prop \<noteq> Some ''true''
         then set_is_enabled ''true'' (p_property_id prop) d1 else d1)"

text \<open>
  The loop \<^verbatim>\<open>for m_value in m_values\<close> that inserts new data. The source has it twice,
  once in the tag branch (with one or two \<^verbatim>\<open>INSERT INTO tag\<close> per value) and once in the
  native branch (with none); \<open>tag_objs\<close> are the objects to tag each new row with, still as
  \<^verbatim>\<open>get_by_hierarchy\<close> returned them. The counters are those of the source before the
  increment. \<^verbatim>\<open>last_data_id\<close> is bound as an integer, \<^verbatim>\<open>last_uid\<close> and \<^verbatim>\<open>band\<close> as their
  texts \<^verbatim>\<open>str(last_uid)\<close> and \<^verbatim>\<open>str(band)\<close>, which the \<^verbatim>\<open>INTEGER\<close> columns turn back into
  numbers.
\<close>

fun insert_tags :: "coad \<Rightarrow> int \<Rightarrow> hier list \<Rightarrow> (error + unit) \<times> coad" where
  "insert_tags c data_id [] = (Inr (), c)"
| "insert_tags c data_id (h # hs) =
     (case as_object h of
        Inl e \<Rightarrow> (Inl e, c)
      | Inr ob \<Rightarrow>
          if \<not> has_table c ''tag'' then (Inl SqlError, c)
          else insert_tags
                 (c\<lparr>working := insert_tag \<lparr>t_data_id = data_id, t_object_id = o_object_id ob\<rparr> (working c)\<rparr>)
                 data_id hs)"

fun insert_values ::
  "coad \<Rightarrow> int \<Rightarrow> int \<Rightarrow> hier list \<Rightarrow> int \<Rightarrow> int \<Rightarrow> int \<Rightarrow> pyval list \<Rightarrow> (error + unit) \<times> coad" where
  "insert_values c member prop_id tag_objs last_data_id last_uid band [] = (Inr (), c)"
| "insert_values c member prop_id tag_objs last_data_id last_uid band (m_value # m_values) =
     (if max_int64 < last_data_id + 1 then (Inl OverflowError, c)
      else
      (let c1 = c\<lparr>working := insert_data
                  \<lparr>d_data_id = last_data_id + 1, d_uid = Some (last_uid + 1),
                   d_membership_id = member, d_property_id = prop_id, d_value = sql_text m_value\<rparr>
                  (working c)\<rparr>
      in if band + 1 > 1 \<and> \<not> has_table c ''band'' then (Inl SqlError, c1)
         else
           (let c2 = (if band + 1 > 1
                      then c1\<lparr>working := insert_band
                                 \<lparr>b_data_id = last_data_id + 1, b_band_id = band + 1\<rparr> (working c1)\<rparr>
                      else c1)
            in (case insert_tags c2 (last_data_id + 1) tag_objs of
                  (Inl e, c3) \<Rightarrow> (Inl e, c3)
                | (Inr _, c3) \<Rightarrow>
                    insert_values c3 member prop_id tag_objs
                      (last_data_id + 1) (last_uid + 1) (band + 1) m_values))))"

text \<open>
  Before the loop: \<^verbatim>\<open>last_data_id += 1\<close> on \<^verbatim>\<open>None\<close> (an empty \<^verbatim>\<open>data\<close> table, or no
  \<^verbatim>\<open>uid\<close> at all) and \<^verbatim>\<open>member[0]\<close> on \<^verbatim>\<open>None\<close> are a \<^verbatim>\<open>TypeError\<close> at the first value.
\<close>

definition insert_new_data ::
  "coad \<Rightarrow> int option \<Rightarrow> int \<Rightarrow> hier list \<Rightarrow> int option \<Rightarrow> int option \<Rightarrow> pyval list
   \<Rightarrow> (error + unit) \<times> coad" where
  "insert_new_data c member prop_id tag_objs last_data_id last_uid m_values =
     (if m_values = [] then (Inr (), c)
      else (case (last_data_id, last_uid, member) of
              (Some i, Some u, Some m) \<Rightarrow> insert_values c m prop_id tag_objs i u 0 m_values
            | _ \<Rightarrow> (Inl TypeError, c)))"

text \<open>
  The tag branch first looks for a data row of this object and property name that already
  carries the tag, and overwrites the first one it finds. \<open>None\<close>: no such row, the loop ran
  to its end. \<^verbatim>\<open>UPDATE property SET is_dynamic=true\<close> (no quotes) stores SQLite's \<^verbatim>\<open>TRUE\<close>,
  the integer 1, which the \<^verbatim>\<open>TEXT\<close> column keeps as the text \<^verbatim>\<open>1\<close>.
\<close>

fun overwrite_tagged ::
  "coad \<Rightarrow> object_row \<Rightarrow> string \<Rightarrow> pyval prop_value \<Rightarrow> int list \<Rightarrow> ((error + unit) \<times> coad) option" where
  "overwrite_tagged c self name val [] = None"
| "overwrite_tagged c self name val (ptag # ptags) =
     (if \<not> has_table c ''data'' then Some (Inl SqlError, c)
      else
      (case fetchone (filter (\<lambda>d. d_data_id d = ptag) (data (working c))) of
         None \<Rightarrow> Some (Inl TypeError, c)
       | Some ptag_data \<Rightarrow>
       (case fetchone (filter (\<lambda>p. p_property_id p = d_property_id ptag_data) (properties (working c))) of
          None \<Rightarrow> Some (Inl TypeError, c)
        | Some ptag_prop \<Rightarrow>
            if p_name ptag_prop \<noteq> name then overwrite_tagged c self name val ptags
            else
            (case fetchone (filter (\<lambda>m. m_membership_id m = d_membership_id ptag_data)
                              (memberships (working c))) of
               None \<Rightarrow> Some (Inl TypeError, c)
             | Some ptag_member \<Rightarrow>
                 if m_child_object_id ptag_member \<noteq> o_object_id self
                 then overwrite_tagged c self name val ptags
                 else
                 (case val of
                    Multi _ \<Rightarrow> Some (Inl OverwriteTaggedList, c)
                  | Single v \<Rightarrow>
                    (case get_mask_value v (p_input_mask ptag_prop) of
                       Inl e \<Rightarrow> Some (Inl e, c)
                     | Inr m_value \<Rightarrow>
                         (let d1 = (if p_is_dynamic ptag_prop \<noteq> Some ''true''
                                    then set_is_dynamic ''1'' (d_property_id ptag_data) (working c)
                                    else working c);
                              d2 = (if p_is_enabled ptag_prop \<noteq> Some ''true''
                                    then set_is_enabled ''1'' (d_property_id ptag_data) d1 else d1);
                              d3 = update_data_value (sql_text m_value) ptag d2
                          in Some (Inr (), commit (c\<lparr>working := d3\<rparr>)))))))))"

text \<open>
  \<^verbatim>\<open>SELECT MAX(data_id), MAX(CAST(uid AS INTEGER)) FROM data\<close>. \<^verbatim>\<open>CAST\<close> gives a 64-bit
  integer: of a number beyond that range, the nearest one in it.
\<close>

definition cast_integer :: "int \<Rightarrow> int" where
  "cast_integer u = max (- max_int64 - 1) (min max_int64 u)"

definition last_ids :: "coad \<Rightarrow> error + (int option \<times> int option)" where
  "last_ids c =
     (if has_table c ''data'' \<and> has_data_uid c
      then Inr (sql_max (map d_data_id (data (working c))),
                sql_max (map cast_integer (List.map_filter d_uid (data (working c)))))
      else Inl SqlError)"

text \<open>The tag branch when no tagged row exists: new data under the membership to
  \<^verbatim>\<open>System.System\<close>, tagged with the owner and, when given, with \<^verbatim>\<open>data_tag\<close>.\<close>

definition set_tagged_new ::
  "coad \<Rightarrow> object_row \<Rightarrow> classdict \<Rightarrow> string \<Rightarrow> pyval prop_value \<Rightarrow> object_row \<Rightarrow> string option
   \<Rightarrow> (error + unit) \<times> coad" where
  "set_tagged_new c self cls name val tag_obj data_tag =
     (case map_of (valid_properties_by_name cls) ''System'' of
        None \<Rightarrow> (Inl KeyError, c)
      | Some names \<Rightarrow>
      (case map_of names name of
         None \<Rightarrow> (Inl KeyError, c)
       | Some prop_id \<Rightarrow>
       (case last_ids c of
          Inl e \<Rightarrow> (Inl e, c)
        | Inr (last_data_id, last_uid) \<Rightarrow>
        (case and_then (get_by_hierarchy c ''System.System'') as_object of
           Inl e \<Rightarrow> (Inl e, c)
         | Inr sys_obj \<Rightarrow>
         (case fetchone (filter (\<lambda>p. p_property_id p = prop_id) (properties (working c))) of
            None \<Rightarrow> (Inl TypeError, c)
          | Some prop \<Rightarrow>
          (case mask_values (as_list val) (p_input_mask prop) of
             Inl e \<Rightarrow> (Inl e, c)
           | Inr m_values \<Rightarrow>
           (case (case data_tag of
                    None \<Rightarrow> Inr []
                  | Some dt \<Rightarrow> and_then (get_by_hierarchy c dt) (\<lambda>h. Inr [h])) of
              Inl e \<Rightarrow> (Inl e, c)
            | Inr data_objs \<Rightarrow>
              (let member = map_option m_membership_id
                              (fetchone (filter (\<lambda>m. m_child_object_id m = o_object_id self \<and>
                                                       m_parent_object_id m = o_object_id sys_obj)
                                           (memberships (working c))));
                   c1 = c\<lparr>working := mark_property prop (working c)\<rparr>
               in (case insert_new_data c1 member prop_id (HObject tag_obj # data_objs)
                          last_data_id last_uid m_values of
                     (Inl e, c2) \<Rightarrow> (Inl e, c2)
                   | (Inr _, c2) \<Rightarrow>
                       (case set_config (commit c2) ''Dynamic'' ''-1'' of
                          (Inl e, c3) \<Rightarrow> (Inl e, c3)
                        | (Inr _, c3) \<Rightarrow> (Inr (), c3)))))))))))"

text \<open>The data of one membership and property, in band order (or by \<^verbatim>\<open>data_id\<close> when the
  \<^verbatim>\<open>data\<close> table has no \<^verbatim>\<open>uid\<close>).\<close>

definition native_rows :: "coad \<Rightarrow> int \<Rightarrow> int \<Rightarrow> (int \<times> int option) list" where
  "native_rows c member prop_id =
     [(d_data_id d, map_option b_band_id b).
        d \<leftarrow> data (working c),
        b \<leftarrow> left_join True (filter (\<lambda>b. b_data_id b = d_data_id d) (bands (working c))),
        d_membership_id d = member \<and> d_property_id d = prop_id]"

definition native_data :: "coad \<Rightarrow> int \<Rightarrow> int \<Rightarrow> error + int list" where
  "native_data c member prop_id =
     (if \<not> has_table c ''data'' then Inl SqlError
      else if has_data_uid c then
        (if \<not> has_table c ''band'' then Inl SqlError
         else Inr (map fst (sort_key snd (native_rows c member prop_id))))
      else Inr (sort (map d_data_id
                  (filter (\<lambda>d. d_membership_id d = member \<and> d_property_id d = prop_id)
                     (data (working c))))))"

text \<open>The loop of the native branch over a list property: one \<^verbatim>\<open>UPDATE\<close> and one
  \<^verbatim>\<open>commit\<close> per element.\<close>

fun overwrite_values :: "coad \<Rightarrow> string option \<Rightarrow> int list \<Rightarrow> pyval list \<Rightarrow> (error + unit) \<times> coad" where
  "overwrite_values c input_mask (data_id # ids) (raw_val # vals) =
     (case get_mask_value raw_val input_mask of
        Inl e \<Rightarrow> (Inl e, c)
      | Inr m_value \<Rightarrow>
          overwrite_values (commit (c\<lparr>working := update_data_value (sql_text m_value) data_id (working c)\<rparr>))
            input_mask ids vals)"
| "overwrite_values c input_mask ids vals = (Inr (), c)"

text \<open>The three cases of the native branch, once the membership, the property and the
  existing data have been found.\<close>

definition native_write ::
  "coad \<Rightarrow> membership_row \<Rightarrow> int \<Rightarrow> property_row \<Rightarrow> int list \<Rightarrow> pyval prop_value
   \<Rightarrow> (error + unit) \<times> coad" where
  "native_write c member prop_id prop all_data val =
     (if length all_data = 0 then
        (case last_ids c of
           Inl e \<Rightarrow> (Inl e, c)
         | Inr (last_data_id, last_uid) \<Rightarrow>
           (case mask_values (as_list val) (p_input_mask prop) of
              Inl e \<Rightarrow> (Inl e, c)
            | Inr m_values \<Rightarrow>
                insert_new_data (c\<lparr>working := mark_property prop (working c)\<rparr>)
                  (Some (m_membership_id member)) prop_id [] last_data_id last_uid m_values))
      else if length all_data = 1 then
        (case val of
           Multi _ \<Rightarrow> (Inl ListForSingle, c)
         | Single v \<Rightarrow>
           (case get_mask_value v (p_input_mask prop) of
              Inl e \<Rightarrow> (Inl e, c)
            | Inr m_value \<Rightarrow>
                (Inr (), commit (c\<lparr>working :=
                           update_data_value (sql_text m_value) (hd all_data) (working c)\<rparr>))))
      else
        (case val of
           Single _ \<Rightarrow> (Inl SingleForList, c)
         | Multi vs \<Rightarrow>
             if length vs \<noteq> length all_data
             then (Inl (LengthMismatch (length vs) (length all_data)), c)
             else overwrite_values c (p_input_mask prop) all_data vs))"

definition set_native ::
  "coad \<Rightarrow> object_row \<Rightarrow> string \<Rightarrow> string \<Rightarrow> (string \<times> int) list \<Rightarrow> string \<Rightarrow> pyval prop_value
   \<Rightarrow> object_row \<Rightarrow> (error + unit) \<times> coad" where
  "set_native c self tag tag_clsname names name val tag_obj =
     (case map_of names name of
        None \<Rightarrow> (Inl (NotValidProperty name tag_clsname), c)
      | Some prop_id \<Rightarrow>
      (case fetchone (filter (\<lambda>m. m_child_object_id m = o_object_id self \<and>
                                   m_parent_object_id m = o_object_id tag_obj)
                        (memberships (working c))) of
         None \<Rightarrow> (Inl (NoMembership tag (o_name self)), c)
       | Some member \<Rightarrow>
       (case native_data c (m_membership_id member) prop_id of
          Inl e \<Rightarrow> (Inl e, c)
        | Inr all_data \<Rightarrow>
        (case fetchone (filter (\<lambda>p. p_property_id p = prop_id) (properties (working c))) of
           None \<Rightarrow> (Inl TypeError, c)
         | Some prop \<Rightarrow> native_write c member prop_id prop all_data val))))"

text \<open>
  \<^verbatim>\<open>ObjectDict.set_property\<close>. Its second statement is \<^verbatim>\<open>tag_obj.get_class()\<close>, a method
  that only an \<^verbatim>\<open>ObjectDict\<close> has: a tag that names a class or an attribute ends there in
  an \<^verbatim>\<open>AttributeError\<close>.
\<close>

definition with_get_class :: "hier \<Rightarrow> error + object_row" where
  "with_get_class h = (case h of HObject ob \<Rightarrow> Inr ob | HClass _ \<Rightarrow> Inl AttributeError
                      | HAttr _ \<Rightarrow> Inl AttributeError)"

definition set_property ::
  "coad \<Rightarrow> object_row \<Rightarrow> string \<Rightarrow> pyval prop_value \<Rightarrow> string \<Rightarrow> string option
   \<Rightarrow> (error + unit) \<times> coad" where
  "set_property c self name val tag data_tag =
     (case and_then (get_by_hierarchy c tag) with_get_class of
        Inl e \<Rightarrow> (Inl e, c)
      | Inr tag_obj \<Rightarrow>
      (case get_class c tag_obj of
         Inl e \<Rightarrow> (Inl e, c)
       | Inr tag_cls \<Rightarrow>
       (case get_class c self of
          Inl e \<Rightarrow> (Inl e, c)
        | Inr cls \<Rightarrow>
          (case map_of (valid_properties_by_name cls) (c_name (meta tag_cls)) of
             None \<Rightarrow>
               if \<not> has_table c ''tag'' then (Inl SqlError, c)
               else
                 (case overwrite_tagged c self name val
                         (map t_data_id (filter (\<lambda>t. t_object_id t = o_object_id tag_obj)
                                           (tags (working c)))) of
                    Some r \<Rightarrow> r
                  | None \<Rightarrow> set_tagged_new c self cls name val tag_obj data_tag)
           | Some names \<Rightarrow>
               set_native c self tag (c_name (meta tag_cls)) names name val tag_obj))))"

subsection \<open>Deleting, tagging and untagging\<close>

fun delete_rows :: "coad \<Rightarrow> int list \<Rightarrow> (error + unit) \<times> coad" where
  "delete_rows c [] = (Inr (), c)"
| "delete_rows c (data_id # ids) =
     (if \<not> has_table c ''text'' then (Inl SqlError, c)
      else
        (let c1 = c\<lparr>working := (working c)\<lparr>texts := filter (\<lambda>x. x_data_id x \<noteq> data_id) (texts (working c))\<rparr>\<rparr>
         in if \<not> has_table c ''tag'' then (Inl SqlError, c1)
         else
           (let c2 = c1\<lparr>working := (working c1)\<lparr>tags := filter (\<lambda>t. t_data_id t \<noteq> data_id) (tags (working c1))\<rparr>\<rparr>
            in if \<not> has_table c ''band'' then (Inl SqlError, c2)
            else
              (let c3 = c2\<lparr>working := (working c2)\<lparr>bands := filter (\<lambda>b. b_data_id b \<noteq> data_id) (bands (working c2))\<rparr>\<rparr>;
                   c4 = c3\<lparr>working := (working c3)\<lparr>data := filter (\<lambda>d. d_data_id d \<noteq> data_id) (data (working c3))\<rparr>\<rparr>
               in delete_rows c4 ids))))"

definition delete_property :: "coad \<Rightarrow> object_row \<Rightarrow> string \<Rightarrow> tag_arg \<Rightarrow> (error + unit) \<times> coad" where
  "delete_property c self name tag =
     (case resolve_tag c tag of
        Inl e \<Rightarrow> (Inl e, c)
      | Inr tag_obj \<Rightarrow>
          if \<not> has_table c ''data'' then (Inl SqlError, c)
          else
            (case delete_rows c
                    (map v_data_id
                       (filter (\<lambda>r. (v_child_object_id r = o_object_id self \<and> v_name r = name) \<and>
                                     (v_parent_object_id r = o_object_id tag_obj \<or>
                                      v_tag_object_id r = Some (o_object_id tag_obj)))
                          (property_view c))) of
               (Inl e, c1) \<Rightarrow> (Inl e, c1)
             | (Inr _, c1) \<Rightarrow> (Inr (), commit c1)))"

text \<open>
  \<^verbatim>\<open>tag_property\<close> guards against the System object with
  \<^verbatim>\<open>tag_obj.meta['object_id'] == '1'\<close>. \<^verbatim>\<open>meta\<close> is the row of the \<^verbatim>\<open>object\<close> table as
  SQLite returns it, and \<^verbatim>\<open>object_id\<close> is an \<^verbatim>\<open>INTEGER\<close> column, so the comparison is
  between a Python \<^verbatim>\<open>int\<close> and a Python \<^verbatim>\<open>str\<close>. \<^verbatim>\<open>untag_property\<close> compares with the
  integer \<^verbatim>\<open>1\<close>.
\<close>

text \<open>\<^verbatim>\<open>GROUP BY data_id\<close>: one row per identifier, in ascending order.\<close>

definition untagged_data :: "coad \<Rightarrow> int \<Rightarrow> string \<Rightarrow> int \<Rightarrow> int list" where
  "untagged_data c child name owner =
     sort (remdups
       (map v_data_id
          (filter (\<lambda>r. v_child_object_id r = child \<and> v_name r = name \<and>
                        v_data_id r \<notin> set (map v_data_id
                                              (filter (\<lambda>t. v_tag_object_id t = Some owner)
                                                 (property_view c))))
             (property_view c))))"

definition tag_property :: "coad \<Rightarrow> object_row \<Rightarrow> string \<Rightarrow> string \<Rightarrow> (error + unit) \<times> coad" where
  "tag_property c self name tag =
     (case and_then (get_by_hierarchy c tag) as_object of
        Inl e \<Rightarrow> (Inl e, c)
      | Inr tag_obj \<Rightarrow>
          if PInt (o_object_id tag_obj) = PStr ''1'' then (Inl CannotTagSystem, c)
          else if \<not> has_table c ''data'' then (Inl SqlError, c)
          else if \<not> has_table c ''tag'' then (Inl SqlError, c)
          else
            (Inr (),
             commit (c\<lparr>working := (working c)
               \<lparr>tags := tags (working c) @
                  map (\<lambda>data_id. \<lparr>t_data_id = data_id, t_object_id = o_object_id tag_obj\<rparr>)
                    (untagged_data c (o_object_id self) name (o_object_id tag_obj))\<rparr>\<rparr>)))"

text \<open>\<^verbatim>\<open>untag_property\<close> ends after \<^verbatim>\<open>executemany\<close>; it does not call \<^verbatim>\<open>commit\<close>.\<close>

definition untag_property :: "coad \<Rightarrow> object_row \<Rightarrow> string \<Rightarrow> string \<Rightarrow> (error + unit) \<times> coad" where
  "untag_property c self name tag =
     (case and_then (get_by_hierarchy c tag) as_object of
        Inl e \<Rightarrow> (Inl e, c)
      | Inr tag_obj \<Rightarrow>
          if PInt (o_object_id tag_obj) = PInt 1 then (Inl CannotUntagSystem, c)
          else if \<not> has_table c ''data'' then (Inl SqlError, c)
          else
            (let all_data_ids =
                   map v_data_id
                     (filter (\<lambda>r. v_child_object_id r = o_object_id self \<and> v_name r = name \<and>
                                   v_tag_object_id r = Some (o_object_id tag_obj))
                        (property_view c))
             in if length all_data_ids = 0 then (Inr (), c)
                else if \<not> has_table c ''tag'' then (Inl SqlError, c)
                else (Inr (),
                      c\<lparr>working := (working c)
                        \<lparr>tags := filter (\<lambda>t. \<not> (t_data_id t \<in> set all_data_ids \<and>
                                                 t_object_id t = o_object_id tag_obj))
                                   (tags (working c))\<rparr>\<rparr>)))"

subsection \<open>The native case, as a condition\<close>

text \<open>
  \<open>native_case\<close> is not a function of the source: it names the situation in which
  \<^verbatim>\<open>set_property\<close> takes its native branch and finds everything it looks up there, and
  returns what was found: the owner, the membership, the property and the identifiers of
  the existing data.
\<close>

definition native_case ::
  "coad \<Rightarrow> object_row \<Rightarrow> string \<Rightarrow> string \<Rightarrow> (object_row \<times> membership_row \<times> property_row \<times> int list) option" where
  "native_case c self name tag =
     (case and_then (get_by_hierarchy c tag) with_get_class of
        Inl _ \<Rightarrow> None
      | Inr tag_obj \<Rightarrow>
      (case get_class c tag_obj of
         Inl _ \<Rightarrow> None
       | Inr tag_cls \<Rightarrow>
       (case get_class c self of
          Inl _ \<Rightarrow> None
        | Inr cls \<Rightarrow>
        (case map_of (valid_properties_by_name cls) (c_name (meta tag_cls)) of
           None \<Rightarrow> None
         | Some names \<Rightarrow>
         (case map_of names name of
            None \<Rightarrow> None
          | Some prop_id \<Rightarrow>
          (case fetchone (filter (\<lambda>m. m_child_object_id m = o_object_id self \<and>
                                       m_parent_object_id m = o_object_id tag_obj)
                            (memberships (working c))) of
             None \<Rightarrow> None
           | Some member \<Rightarrow>
           (case native_data c (m_membership_id member) prop_id of
              Inl _ \<Rightarrow> None
            | Inr all_data \<Rightarrow>
            (case fetchone (filter (\<lambda>p. p_property_id p = prop_id) (properties (working c))) of
               None \<Rightarrow> None
             | Some prop \<Rightarrow> Some (tag_obj, member, prop, all_data)))))))))"

subsection \<open>The tag case, as a condition\<close>

text \<open>
  The same for the other branch of \<^verbatim>\<open>set_property\<close>, taken when the class of the owner is
  no parent class of the object's properties. \<open>tagged_row\<close> is the search of that branch
  for a data row of this object and property name that carries the tag: \<open>None\<close> when the
  loop ends without finding one, otherwise the first one with its property, or the error
  of a lookup that fails on the way. \<open>tag_case\<close> names the two situations in which the
  branch finds everything it looks up: a tagged row to overwrite, or none, and then the
  property of that name under \<^verbatim>\<open>System\<close> and the membership of the object in
  \<^verbatim>\<open>System.System\<close>, for which new data is inserted.
\<close>

fun tagged_row :: "coad \<Rightarrow> object_row \<Rightarrow> string \<Rightarrow> int list \<Rightarrow> (error + int \<times> property_row) option" where
  "tagged_row c self name [] = None"
| "tagged_row c self name (ptag # ptags) =
     (if \<not> has_table c ''data'' then Some (Inl SqlError)
      else
      (case fetchone (filter (\<lambda>d. d_data_id d = ptag) (data (working c))) of
         None \<Rightarrow> Some (Inl TypeError)
       | Some ptag_data \<Rightarrow>
       (case fetchone (filter (\<lambda>p. p_property_id p = d_property_id ptag_data) (properties (working c))) of
          None \<Rightarrow> Some (Inl TypeError)
        | Some ptag_prop \<Rightarrow>
            if p_name ptag_prop \<noteq> name then tagged_row c self name ptags
            else
            (case fetchone (filter (\<lambda>m. m_membership_id m = d_membership_id ptag_data)
                              (memberships (working c))) of
               None \<Rightarrow> Some (Inl TypeError)
             | Some ptag_member \<Rightarrow>
                 if m_child_object_id ptag_member \<noteq> o_object_id self
                 then tagged_row c self name ptags
                 else Some (Inr (ptag, ptag_prop))))))"

datatype tag_found = Overwrite int property_row | Insert membership_row property_row

definition tag_case :: "coad \<Rightarrow> object_row \<Rightarrow> string \<Rightarrow> string \<Rightarrow> (object_row \<times> tag_found) option" where
  "tag_case c self name tag =
     (case and_then (get_by_hierarchy c tag) with_get_class of
        Inl _ \<Rightarrow> None
      | Inr tag_obj \<Rightarrow>
      (case get_class c tag_obj of
         Inl _ \<Rightarrow> None
       | Inr tag_cls \<Rightarrow>
       (case get_class c self of
          Inl _ \<Rightarrow> None
        | Inr cls \<Rightarrow>
        (case map_of (valid_properties_by_name cls) (c_name (meta tag_cls)) of
           Some _ \<Rightarrow> None
         | None \<Rightarrow>
           if \<not> has_table c ''tag'' then None
           else
           (case tagged_row c self name
                   (map t_data_id (filter (\<lambda>t. t_object_id t = o_object_id tag_obj)
                                     (tags (working c)))) of
              Some (Inl _) \<Rightarrow> None
            | Some (Inr (ptag, ptag_prop)) \<Rightarrow> Some (tag_obj, Overwrite ptag ptag_prop)
            | None \<Rightarrow>
              (case map_of (valid_properties_by_name cls) ''System'' of
                 None \<Rightarrow> None
               | Some names \<Rightarrow>
               (case map_of names name of
                  None \<Rightarrow> None
                | Some prop_id \<Rightarrow>
                (case and_then (get_by_hierarchy c ''System.System'') as_object of
                   Inl _ \<Rightarrow> None
                 | Inr sys_obj \<Rightarrow>
                 (case fetchone (filter (\<lambda>p. p_property_id p = prop_id) (properties (working c))) of
                    None \<Rightarrow> None
                  | Some prop \<Rightarrow>
                  (case fetchone (filter (\<lambda>m. m_child_object_id m = o_object_id self \<and>
                                               m_parent_object_id m = o_object_id sys_obj)
                                    (memberships (working c))) of
                     None \<Rightarrow> None
                   | Some member \<Rightarrow> Some (tag_obj, Insert member prop)))))))))))"

subsection \<open>Consistent stores\<close>

text \<open>
  What SQLite and the file format guarantee of a loaded store and the theorems below
  assume where they say so: the primary keys the loader declares (\<^verbatim>\<open>property_id\<close>,
  \<^verbatim>\<open>membership_id\<close>, \<^verbatim>\<open>data_id\<close>) are unique, and every band, tag and text row belongs to
  a data row.
\<close>

definition consistent :: "db \<Rightarrow> bool" where
  "consistent d =
     (distinct (map p_property_id (properties d)) \<and>
      distinct (map m_membership_id (memberships d)) \<and>
      distinct (map d_data_id (data d)) \<and>
      list_all (\<lambda>b. b_data_id b \<in> set (map d_data_id (data d))) (bands d) \<and>
      list_all (\<lambda>t. t_data_id t \<in> set (map d_data_id (data d))) (tags d) \<and>
      list_all (\<lambda>x. x_data_id x \<in> set (map d_data_id (data d))) (texts d))"

subsection \<open>Auxiliary definitions\<close>

text \<open>
  Names for what the insertion loop of \<^verbatim>\<open>set_property\<close> produces, used to state the lemmas
  about it: the data rows and band rows it appends for a list of values when the counters
  stand at \<open>i\<close>, \<open>u\<close> and \<open>b\<close>, the row of the view a new data row gives, and what
  \<open>mark_property\<close> does to one row of the property table and to the dictionaries of a
  \<^verbatim>\<open>ClassDict\<close> (\<open>mark_row\<close>, with the text that is stored: \<^verbatim>\<open>true\<close>, or \<^verbatim>\<open>1\<close> where the
  code writes \<^verbatim>\<open>true\<close> without quotes).
\<close>

fun inserted_data :: "int \<Rightarrow> int \<Rightarrow> int \<Rightarrow> int \<Rightarrow> string list \<Rightarrow> data_row list" where
  "inserted_data i u m pid [] = []"
| "inserted_data i u m pid (v # vs) =
     \<lparr>d_data_id = i + 1, d_uid = Some (u + 1), d_membership_id = m, d_property_id = pid, d_value = v\<rparr>
       # inserted_data (i + 1) (u + 1) m pid vs"

fun inserted_bands :: "int \<Rightarrow> int \<Rightarrow> string list \<Rightarrow> band_row list" where
  "inserted_bands i b [] = []"
| "inserted_bands i b (v # vs) =
     (if b + 1 > 1 then [\<lparr>b_data_id = i + 1, b_band_id = b + 1\<rparr>] else [])
       @ inserted_bands (i + 1) (b + 1) vs"

definition new_row :: "int \<Rightarrow> membership_row \<Rightarrow> property_row \<Rightarrow> data_row \<Rightarrow> view_row" where
  "new_row i member prop d =
     \<lparr>v_data_id = d_data_id d, v_value = d_value d, v_name = p_name prop,
      v_input_mask = p_input_mask prop, v_child_object_id = m_child_object_id member,
      v_parent_object_id = m_parent_object_id member, v_tag_object_id = None,
      v_text_value = None,
      v_band_id = (if d_data_id d - i > 1 then Some (d_data_id d - i) else None)\<rparr>"

definition mark_row :: "string \<Rightarrow> property_row \<Rightarrow> property_row \<Rightarrow> property_row" where
  "mark_row val prop p =
     (let p1 = (if p_is_dynamic prop \<noteq> Some ''true'' \<and> p_property_id p = p_property_id prop
                then p\<lparr>p_is_dynamic := Some val\<rparr> else p)
      in if p_is_enabled prop \<noteq> Some ''true'' \<and> p_property_id p1 = p_property_id prop
         then p1\<lparr>p_is_enabled := Some val\<rparr> else p1)"

definition mark_props ::
  "string \<Rightarrow> property_row \<Rightarrow> (int \<times> property_row) list \<Rightarrow> (int \<times> property_row) list" where
  "mark_props val prop pv = map (\<lambda>(k, v). (k, mark_row val prop v)) pv"

definition mark_valid ::
  "string \<Rightarrow> property_row \<Rightarrow> (string \<times> (int \<times> property_row) list) list \<Rightarrow> (string \<times> (int \<times> property_row) list) list" where
  "mark_valid val prop vp = map (\<lambda>(p, pv). (p, mark_props val prop pv)) vp"

definition marked :: "string \<Rightarrow> property_row \<Rightarrow> coad \<Rightarrow> coad \<Rightarrow> bool" where
  "marked val prop c c' =
     (classes (working c') = classes (working c) \<and>
      objects (working c') = objects (working c) \<and>
      collections (working c') = collections (working c) \<and>
      attributes (working c') = attributes (working c) \<and>
      attribute_data (working c') = attribute_data (working c) \<and>
      table_list c' = table_list c \<and>
      properties (working c') = map (mark_row val prop) (properties (working c)))"

section \<open>Loading and saving: \<^verbatim>\<open>plexos_database.py\<close>\<close>

subsection \<open>The SQLite database\<close>

text \<open>
  \<^verbatim>\<open>load\<close> builds the database from whatever tables and columns the file names, and \<^verbatim>\<open>save\<close>
  walks whatever tables it finds, so here a database is a list of named tables (in the
  order of \<^verbatim>\<open>sqlite_master\<close>), each with its declared columns, its foreign-key declarations
  and its rows, and a list of indexes. A value is \<^verbatim>\<open>NULL\<close>, an integer or a text.

  What is taken from SQLite: every row has a \<^verbatim>\<open>rowid\<close>, and a table is read in \<^verbatim>\<open>rowid\<close>
  order (\<open>tb_rows\<close> keeps the rows in that order, each with its \<^verbatim>\<open>rowid\<close>). A column declared
  \<^verbatim>\<open>INTEGER PRIMARY KEY\<close> is the \<^verbatim>\<open>rowid\<close>: inserting \<^verbatim>\<open>NULL\<close> there gives the row the next
  \<^verbatim>\<open>rowid\<close> (one more than the largest, 1 in an empty table), the column reads as that
  number, a value present twice is refused and a text that is no integer is refused.
  Without such a column a new row gets the next \<^verbatim>\<open>rowid\<close>. A column declared \<^verbatim>\<open>INTEGER\<close>
  stores a text that is a decimal integer as that integer and leaves other texts as they
  are; a column declared \<^verbatim>\<open>TEXT\<close> stores an integer as its decimal text. Foreign keys are
  recorded, not enforced (the connection never turns them on). Names are compared as
  written. Not modelled: real numbers, blanks around a number, integers beyond 64 bits, and
  the parsing of the SQL text (the code writes some names unquoted, which SQLite
  accepts for ordinary names).
\<close>

datatype sql_value = Null | IntV int | TextV string

datatype col_type = INTEGER | TEXT

record sql_column =
  cn_name :: string
  cn_type :: col_type
  cn_pk :: bool

record sql_table =
  tb_columns :: "sql_column list"
  tb_foreign :: "(string \<times> string \<times> string) list"
  tb_rows :: "(int \<times> sql_value list) list"

record database =
  db_tables :: "(string \<times> sql_table) list"
  db_indexes :: "(string \<times> string \<times> string list) list"

definition digit_of :: "char \<Rightarrow> nat option" where
  "digit_of ch = (if CHR ''0'' \<le> ch \<and> ch \<le> CHR ''9'' then Some (of_char ch - 48) else None)"

fun nat_of_digits :: "nat \<Rightarrow> string \<Rightarrow> nat option" where
  "nat_of_digits acc [] = Some acc"
| "nat_of_digits acc (ch # s) =
     (case digit_of ch of None \<Rightarrow> None | Some n \<Rightarrow> nat_of_digits (10 * acc + n) s)"

definition to_int :: "string \<Rightarrow> int option" where
  "to_int s =
     (case s of
        [] \<Rightarrow> None
      | ch # ds \<Rightarrow>
          if ch = CHR ''-'' then (if ds = [] then None
                                 else map_option (\<lambda>n. - int n) (nat_of_digits 0 ds))
          else if ch = CHR ''+'' then (if ds = [] then None
                                      else map_option int (nat_of_digits 0 ds))
          else map_option int (nat_of_digits 0 s))"

definition affinity :: "col_type \<Rightarrow> sql_value \<Rightarrow> sql_value" where
  "affinity ty v =
     (case v of
        Null \<Rightarrow> Null
      | IntV i \<Rightarrow> (case ty of INTEGER \<Rightarrow> IntV i | TEXT \<Rightarrow> TextV (str i))
      | TextV s \<Rightarrow> (case ty of
                      INTEGER \<Rightarrow> (case to_int s of Some i \<Rightarrow> IntV i | None \<Rightarrow> TextV s)
                    | TEXT \<Rightarrow> TextV s))"

text \<open>\<^verbatim>\<open>DROP TABLE IF EXISTS\<close>; the indexes of the table go with it.\<close>

definition drop_table :: "string \<Rightarrow> database \<Rightarrow> database" where
  "drop_table t d =
     d\<lparr>db_tables := filter (\<lambda>(n, tb). n \<noteq> t) (db_tables d),
       db_indexes := filter (\<lambda>(n, t', cs). t' \<noteq> t) (db_indexes d)\<rparr>"

text \<open>\<^verbatim>\<open>CREATE TABLE\<close>: refused without columns, with a column name twice, or when the table
  exists.\<close>

definition create_table ::
  "string \<Rightarrow> sql_column list \<Rightarrow> (string \<times> string \<times> string) list \<Rightarrow> database \<Rightarrow> error + database" where
  "create_table t cols fks d =
     (if cols \<noteq> [] \<and> distinct (map cn_name cols) \<and> \<not> dict_has t (db_tables d) \<and>
         length (filter cn_pk cols) \<le> 1
      then Inr (d\<lparr>db_tables := db_tables d @
                   [(t, \<lparr>tb_columns = cols, tb_foreign = fks, tb_rows = []\<rparr>)]\<rparr>)
      else Inl SqlError)"

definition set_table :: "string \<Rightarrow> sql_table \<Rightarrow> database \<Rightarrow> database" where
  "set_table t tb d =
     d\<lparr>db_tables := map (\<lambda>(n, old). if n = t then (n, tb) else (n, old)) (db_tables d)\<rparr>"

text \<open>\<^verbatim>\<open>ALTER TABLE ... ADD COLUMN\<close>: the new column comes last and is \<^verbatim>\<open>NULL\<close> in the rows
  there are.\<close>

definition add_column :: "string \<Rightarrow> sql_column \<Rightarrow> database \<Rightarrow> error + database" where
  "add_column t col d =
     (case map_of (db_tables d) t of
        None \<Rightarrow> Inl SqlError
      | Some tb \<Rightarrow>
          if cn_name col \<in> set (map cn_name (tb_columns tb)) then Inl SqlError
          else Inr (set_table t
                      (tb\<lparr>tb_columns := tb_columns tb @ [col],
                          tb_rows := map (\<lambda>(i, cells). (i, cells @ [Null])) (tb_rows tb)\<rparr>) d))"

text \<open>\<^verbatim>\<open>ALTER TABLE ... RENAME TO\<close>; the indexes follow the table.\<close>

definition rename_table :: "string \<Rightarrow> string \<Rightarrow> database \<Rightarrow> error + database" where
  "rename_table t t2 d =
     (if dict_has t (db_tables d) \<and> \<not> dict_has t2 (db_tables d)
      then Inr (d\<lparr>db_tables := map (\<lambda>(n, tb). (if n = t then t2 else n, tb)) (db_tables d),
                  db_indexes := map (\<lambda>(n, t', cs). (n, if t' = t then t2 else t', cs)) (db_indexes d)\<rparr>)
      else Inl SqlError)"

text \<open>One row into a table, the cells given for all its columns in order.\<close>

definition next_rowid :: "(int \<times> sql_value list) list \<Rightarrow> int" where
  "next_rowid rows = (if rows = [] then 1 else fst (last rows) + 1)"

definition insert_row :: "sql_table \<Rightarrow> sql_value list \<Rightarrow> error + sql_table" where
  "insert_row tb cells =
     (let vals = map (\<lambda>(c, v). affinity (cn_type c) v) (zip (tb_columns tb) cells) in
      case filter (\<lambda>(c, v). cn_pk c) (zip (tb_columns tb) vals) of
        [] \<Rightarrow> Inr (tb\<lparr>tb_rows := tb_rows tb @ [(next_rowid (tb_rows tb), vals)]\<rparr>)
      | (c, v) # _ \<Rightarrow>
          (case v of
             Null \<Rightarrow>
               Inr (tb\<lparr>tb_rows := tb_rows tb @
                      [(next_rowid (tb_rows tb),
                        map (\<lambda>(c, v). if cn_pk c then IntV (next_rowid (tb_rows tb)) else v)
                          (zip (tb_columns tb) vals))]\<rparr>)
           | IntV i \<Rightarrow>
               if i \<in> set (map fst (tb_rows tb)) then Inl SqlError
               else Inr (tb\<lparr>tb_rows := insort_key fst (i, vals) (tb_rows tb)\<rparr>)
           | TextV s \<Rightarrow> Inl SqlError))"

text \<open>\<^verbatim>\<open>INSERT INTO t (names) VALUES (vals)\<close>: the columns not named are \<^verbatim>\<open>NULL\<close>.\<close>

definition insert_into :: "string \<Rightarrow> string list \<Rightarrow> sql_value list \<Rightarrow> database \<Rightarrow> error + database" where
  "insert_into t names vals d =
     (case map_of (db_tables d) t of
        None \<Rightarrow> Inl SqlError
      | Some tb \<Rightarrow>
          if names \<noteq> [] \<and> list_all (\<lambda>n. n \<in> set (map cn_name (tb_columns tb))) names
          then and_then
                 (insert_row tb
                    (map (\<lambda>c. case map_of (zip names vals) (cn_name c) of
                                None \<Rightarrow> Null | Some v \<Rightarrow> v) (tb_columns tb)))
                 (\<lambda>tb'. Inr (set_table t tb' d))
          else Inl SqlError)"

text \<open>\<^verbatim>\<open>INSERT INTO t SELECT * FROM src\<close>: the rows of \<open>src\<close> in its order, one by one.\<close>

fun insert_rows :: "sql_table \<Rightarrow> sql_value list list \<Rightarrow> error + sql_table" where
  "insert_rows tb [] = Inr tb"
| "insert_rows tb (cells # rest) = and_then (insert_row tb cells) (\<lambda>tb'. insert_rows tb' rest)"

definition copy_rows :: "string \<Rightarrow> string \<Rightarrow> database \<Rightarrow> error + database" where
  "copy_rows t src d =
     (case map_of (db_tables d) t of
        None \<Rightarrow> Inl SqlError
      | Some tb \<Rightarrow>
          (case map_of (db_tables d) src of
             None \<Rightarrow> Inl SqlError
           | Some sb \<Rightarrow>
               if length (tb_columns tb) = length (tb_columns sb)
               then and_then (insert_rows tb (map snd (tb_rows sb))) (\<lambda>tb'. Inr (set_table t tb' d))
               else Inl SqlError))"

text \<open>\<^verbatim>\<open>CREATE INDEX name ON t (cols)\<close>. SQLite fills an index from the rows of its table
  and keeps it up to date; the model keeps its name, table and columns.\<close>

definition create_index :: "string \<Rightarrow> string \<Rightarrow> string list \<Rightarrow> database \<Rightarrow> error + database" where
  "create_index name t cols d =
     (case map_of (db_tables d) t of
        None \<Rightarrow> Inl SqlError
      | Some tb \<Rightarrow>
          if name \<notin> set (map fst (db_indexes d)) \<and> \<not> dict_has name (db_tables d) \<and>
             list_all (\<lambda>c. c \<in> set (map cn_name (tb_columns tb))) cols
          then Inr (d\<lparr>db_indexes := db_indexes d @ [(name, t, cols)]\<rparr>)
          else Inl SqlError)"

subsection \<open>\<^verbatim>\<open>load\<close>\<close>

text \<open>
  \<^verbatim>\<open>load\<close> reads the file with \<^verbatim>\<open>etree.iterparse\<close>, asking for the events \<^verbatim>\<open>start-plexos_ns\<close>
  (a namespace declaration: prefix and URI), \<^verbatim>\<open>start\<close> (an element opens: its tag) and
  \<^verbatim>\<open>end\<close> (an element is complete: its tag and its children, of which the code reads tag
  and text). Tags carry the namespace as \<^verbatim>\<open>{uri}name\<close>.
\<close>

datatype event =
    StartNs string string
  | Start string
  | End string "(string \<times> string option) list"

definition startswith :: "string \<Rightarrow> string \<Rightarrow> bool" where
  "startswith pre s = (take (length pre) s = pre)"

definition endswith :: "string \<Rightarrow> string \<Rightarrow> bool" where
  "endswith suf s = (length suf \<le> length s \<and> drop (length s - length suf) s = suf)"

text \<open>\<^verbatim>\<open>col_name[:-3]\<close>.\<close>

definition cut_id :: "string \<Rightarrow> string" where
  "cut_id s = take (length s - 3) s"

definition META_TABLE :: string where
  "META_TABLE = ''plexos_meta''"

definition PK_EXCEPTIONS :: "string list" where
  "PK_EXCEPTIONS = [''band'']"

text \<open>The local variables of \<^verbatim>\<open>load\<close> that live across the loop, and the connection.\<close>

record loader =
  ld_tables :: "(string \<times> string list) list"
  ld_nsl :: nat
  ld_namespace :: "string option"
  ld_root_element :: "string option"
  ld_t_check :: string
  ld_forkeys :: "(string \<times> string) list"
  ld_dbcon :: database

definition loader0 :: loader where
  "loader0 = \<lparr>ld_tables = [], ld_nsl = 0, ld_namespace = None, ld_root_element = None,
              ld_t_check = [], ld_forkeys = [], ld_dbcon = \<lparr>db_tables = [], db_indexes = []\<rparr>\<rparr>"

text \<open>
  The declaration of a column, as the code writes it twice, for a new table and for the
  rebuilt one: \<^verbatim>\<open>INTEGER\<close> for a name ending in \<^verbatim>\<open>_id\<close>, and \<^verbatim>\<open>PRIMARY KEY\<close> when the name is
  the table's with \<^verbatim>\<open>_id\<close> and the table is no exception; \<^verbatim>\<open>INTEGER\<close> for \<^verbatim>\<open>uid\<close>; \<^verbatim>\<open>TEXT\<close>
  otherwise.
\<close>

definition column_of :: "string \<Rightarrow> string \<Rightarrow> sql_column" where
  "column_of table_name col_name =
     (if endswith ''_id'' col_name
      then \<lparr>cn_name = col_name, cn_type = INTEGER,
            cn_pk = (cut_id col_name = table_name \<and> table_name \<notin> set PK_EXCEPTIONS)\<rparr>
      else if col_name = ''uid'' then \<lparr>cn_name = col_name, cn_type = INTEGER, cn_pk = False\<rparr>
      else \<lparr>cn_name = col_name, cn_type = TEXT, cn_pk = False\<rparr>)"

text \<open>A table seen for the first time: every \<^verbatim>\<open>_id\<close> column that is not the primary key
  is noted in \<^verbatim>\<open>forkeys\<close>.\<close>

definition new_table :: "string \<Rightarrow> string list \<Rightarrow> loader \<Rightarrow> error + loader" where
  "new_table table_name col_names l =
     and_then
       (create_table table_name (map (column_of table_name) col_names) []
          (drop_table table_name (ld_dbcon l)))
       (\<lambda>d. Inr (l\<lparr>ld_forkeys := ld_forkeys l @
                       map (Pair table_name)
                         (filter (\<lambda>c. endswith ''_id'' c \<and> \<not> cn_pk (column_of table_name c))
                            col_names),
                    ld_dbcon := d,
                    ld_tables := dict_set table_name col_names (ld_tables l)\<rparr>))"

text \<open>Columns seen for the first time in a later record: every \<^verbatim>\<open>_id\<close> column among them
  is noted in \<^verbatim>\<open>forkeys\<close>, the table's own \<^verbatim>\<open>_id\<close> column too.\<close>

fun add_columns :: "string \<Rightarrow> string list \<Rightarrow> loader \<Rightarrow> error + loader" where
  "add_columns table_name [] l = Inr l"
| "add_columns table_name (new_col # rest) l =
     and_then
       (add_column table_name
          \<lparr>cn_name = new_col,
           cn_type = (if endswith ''_id'' new_col then INTEGER
                      else if new_col = ''uid'' then INTEGER else TEXT),
           cn_pk = False\<rparr> (ld_dbcon l))
       (\<lambda>d. add_columns table_name rest
               (l\<lparr>ld_forkeys := (if endswith ''_id'' new_col
                                  then ld_forkeys l @ [(table_name, new_col)] else ld_forkeys l),
                  ld_dbcon := d,
                  ld_tables := (case map_of (ld_tables l) table_name of
                                  None \<Rightarrow> ld_tables l
                                | Some cols \<Rightarrow> dict_set table_name (cols @ [new_col]) (ld_tables l))\<rparr>))"

text \<open>
  One record. The new columns are \<^verbatim>\<open>set(col_names) - set(tables[table_name])\<close>, walked in
  the order Python keeps the set in, which the code leaves open; \<open>order\<close> stands for it.
\<close>

definition load_record ::
  "(string list \<Rightarrow> string list) \<Rightarrow> string \<Rightarrow> (string \<times> string option) list \<Rightarrow> loader
   \<Rightarrow> error + loader" where
  "load_record order tag children l =
     (let table_name = drop (ld_nsl l + 2) tag;
          col_names = map (\<lambda>(t, x). drop (ld_nsl l) t) children;
          col_values = map (\<lambda>(t, x). case x of None \<Rightarrow> [] | Some s \<Rightarrow> s) children
      in and_then (if dict_has table_name (ld_tables l) then Inr l
                   else new_table table_name col_names l) (\<lambda>l1.
         (case map_of (ld_tables l1) table_name of
            None \<Rightarrow> Inl KeyError
          | Some known \<Rightarrow>
              and_then (add_columns table_name
                          (order (remdups (filter (\<lambda>c. c \<notin> set known) col_names))) l1) (\<lambda>l2.
              and_then (insert_into table_name col_names (map TextV col_values) (ld_dbcon l2))
                (\<lambda>d. Inr (l2\<lparr>ld_dbcon := d\<rparr>))))))"

fun load_event :: "(string list \<Rightarrow> string list) \<Rightarrow> event \<Rightarrow> loader \<Rightarrow> error + loader" where
  "load_event order (StartNs prefix uri) l =
     Inr (l\<lparr>ld_namespace := Some uri, ld_nsl := length uri + 2,
            ld_t_check := ''{'' @ uri @ ''}t_''\<rparr>)"
| "load_event order (Start tag) l =
     Inr (if ld_root_element l = None then l\<lparr>ld_root_element := Some (drop (ld_nsl l) tag)\<rparr>
          else l)"
| "load_event order (End tag children) l =
     (if startswith (ld_t_check l) tag then load_record order tag children l else Inr l)"

fun ingest :: "(string list \<Rightarrow> string list) \<Rightarrow> event list \<Rightarrow> loader \<Rightarrow> error + loader" where
  "ingest order [] l = Inr l"
| "ingest order (e # es) l = and_then (load_event order e l) (ingest order es)"

text \<open>\<^verbatim>\<open>forkeys_tables\<close>: the noted columns whose prefix is a table of the file, by table.\<close>

definition forkeys_tables ::
  "(string \<times> string list) list \<Rightarrow> (string \<times> string) list \<Rightarrow> (string \<times> string list) list" where
  "forkeys_tables tables forkeys =
     foldl (\<lambda>ft (orig_table, orig_col).
              if dict_has (cut_id orig_col) tables
              then dict_set orig_table
                     ((case map_of ft orig_table of None \<Rightarrow> [] | Some cs \<Rightarrow> cs) @ [orig_col]) ft
              else ft) [] forkeys"

text \<open>The rebuild of one table: move it aside, create it again with the foreign keys,
  copy the rows, drop the old one.\<close>

definition rebuild_table ::
  "(string \<times> string list) list \<Rightarrow> string \<Rightarrow> string list \<Rightarrow> database \<Rightarrow> error + database" where
  "rebuild_table tables table_name forkeys_cols d =
     and_then (rename_table table_name (table_name @ ''_todelete'')
                 (drop_table (table_name @ ''_todelete'') d)) (\<lambda>d1.
     (case map_of tables table_name of
        None \<Rightarrow> Inl KeyError
      | Some cols \<Rightarrow>
          and_then (create_table table_name (map (column_of table_name) cols)
                      (map (\<lambda>c. (c, cut_id c, c)) forkeys_cols) (drop_table table_name d1)) (\<lambda>d2.
          and_then (copy_rows table_name (table_name @ ''_todelete'') d2) (\<lambda>d3.
            Inr (drop_table (table_name @ ''_todelete'') d3)))))"

fun rebuild ::
  "(string \<times> string list) list \<Rightarrow> (string \<times> string list) list \<Rightarrow> database \<Rightarrow> error + database" where
  "rebuild tables [] d = Inr d"
| "rebuild tables ((table_name, forkeys_cols) # rest) d =
     and_then (rebuild_table tables table_name forkeys_cols d) (rebuild tables rest)"

fun create_indexes :: "(string \<times> string) list \<Rightarrow> database \<Rightarrow> error + database" where
  "create_indexes [] d = Inr d"
| "create_indexes ((orig_table, orig_col) # rest) d =
     and_then (create_index (orig_table @ ''_'' @ orig_col @ ''_idx'') orig_table [orig_col] d)
       (create_indexes rest)"

definition create_meta :: "string option \<Rightarrow> string option \<Rightarrow> database \<Rightarrow> error + database" where
  "create_meta namespace root_element d =
     and_then (create_table META_TABLE
                 [\<lparr>cn_name = META_TABLE @ ''_id'', cn_type = INTEGER, cn_pk = True\<rparr>,
                  \<lparr>cn_name = ''name'', cn_type = TEXT, cn_pk = False\<rparr>,
                  \<lparr>cn_name = ''value'', cn_type = TEXT, cn_pk = False\<rparr>] []
                 (drop_table META_TABLE d)) (\<lambda>d1.
     and_then (insert_into META_TABLE [''name'', ''value'']
                 [TextV ''namespace'', case namespace of None \<Rightarrow> Null | Some s \<Rightarrow> TextV s] d1) (\<lambda>d2.
     insert_into META_TABLE [''name'', ''value'']
       [TextV ''root_element'', case root_element of None \<Rightarrow> Null | Some s \<Rightarrow> TextV s] d2))"

definition index_list :: "(string \<times> string) list" where
  "index_list = [(''object'', ''name''), (''property'', ''name''), (''data'', ''uid'')]"

fun create_listed ::
  "(string \<times> string list) list \<Rightarrow> (string \<times> string) list \<Rightarrow> database \<Rightarrow> error + database" where
  "create_listed tables [] d = Inr d"
| "create_listed tables ((tablename, colname) # rest) d =
     (case map_of tables tablename of
        None \<Rightarrow> create_listed tables rest d
      | Some cols \<Rightarrow>
          if colname \<in> set cols
          then and_then (create_index (tablename @ ''_'' @ colname @ ''_idx'') tablename [colname] d)
                 (create_listed tables rest)
          else create_listed tables rest d)"

text \<open>
  \<^verbatim>\<open>load\<close>, from the events of the file to the database it returns. The two views it
  creates at the end (\<^verbatim>\<open>property_view\<close> is the subject of the sections on \<^verbatim>\<open>COAD\<close>) and the
  final \<^verbatim>\<open>commit\<close> change no table and no index and are left out.
\<close>

definition load :: "(string list \<Rightarrow> string list) \<Rightarrow> event list \<Rightarrow> error + database" where
  "load order source =
     and_then (ingest order source loader0) (\<lambda>l.
     and_then (rebuild (ld_tables l) (forkeys_tables (ld_tables l) (ld_forkeys l)) (ld_dbcon l)) (\<lambda>d1.
     and_then (create_indexes (ld_forkeys l) d1) (\<lambda>d2.
     and_then (create_meta (ld_namespace l) (ld_root_element l) d2) (\<lambda>d3.
     and_then (create_listed (ld_tables l) index_list d3) (\<lambda>d4.
       create_index ''object_class_id_and_name_idx'' ''object'' [''class_id'', ''name''] d4)))))"

subsection \<open>\<^verbatim>\<open>save\<close>\<close>

text \<open>
  \<^verbatim>\<open>save\<close> writes the opening tag of the root element with the namespace, one element per
  row, and the closing tag. The model keeps what is written as a document: the two names
  in the opening tag, the elements in the order written, each with its tag and its
  sub-elements (tag and text) in order, and the name in the closing tag. How \<^verbatim>\<open>etree\<close>
  spells an element as text is not modelled.
\<close>

record document =
  doc_root :: string
  doc_namespace :: string
  doc_records :: "(string \<times> (string \<times> string) list) list"
  doc_close :: string

text \<open>The format \<^verbatim>\<open>%s\<close> of a value read from the database.\<close>

definition py_format :: "sql_value \<Rightarrow> string" where
  "py_format v = (case v of Null \<Rightarrow> ''None'' | IntV i \<Rightarrow> str i | TextV s \<Rightarrow> s)"

text \<open>\<^verbatim>\<open>SELECT name, value FROM 'plexos_meta'\<close>: an error (\<open>None\<close>) without the table or
  without one of the columns.\<close>

definition column_index :: "string \<Rightarrow> sql_table \<Rightarrow> nat option" where
  "column_index name tb =
     (case filter (\<lambda>(c, i). cn_name c = name) (zip (tb_columns tb) [0 ..< length (tb_columns tb)]) of
        [] \<Rightarrow> None
      | (c, i) # _ \<Rightarrow> Some i)"

definition meta_rows :: "database \<Rightarrow> (sql_value \<times> sql_value) list option" where
  "meta_rows d =
     (case map_of (db_tables d) META_TABLE of
        None \<Rightarrow> None
      | Some tb \<Rightarrow>
          (case column_index ''name'' tb of
             None \<Rightarrow> None
           | Some i \<Rightarrow>
               (case column_index ''value'' tb of
                  None \<Rightarrow> None
                | Some j \<Rightarrow> Some (map (\<lambda>(rowid, cells). (cells ! i, cells ! j)) (tb_rows tb)))))"

definition read_meta :: "database \<Rightarrow> (sql_value \<times> sql_value) list" where
  "read_meta d =
     (case meta_rows d of
        None \<Rightarrow> [(TextV ''namespace'', TextV ''http://tempuri.org/MasterDataSet.xsd''),
                 (TextV ''root_element'', TextV ''MasterDataSet'')]
      | Some rows \<Rightarrow> foldl (\<lambda>plexos_meta (k, v). dict_set k v plexos_meta) [] rows)"

text \<open>The sub-elements of one row: a \<^verbatim>\<open>None\<close> is skipped, an integer is written as
  \<^verbatim>\<open>str\<close> gives it.\<close>

fun sub_elements :: "(string \<times> sql_value) list \<Rightarrow> (string \<times> string) list" where
  "sub_elements [] = []"
| "sub_elements ((sube, val) # rest) =
     (case val of
        Null \<Rightarrow> sub_elements rest
      | IntV i \<Rightarrow> (sube, str i) # sub_elements rest
      | TextV s \<Rightarrow> (sube, s) # sub_elements rest)"

text \<open>The loop \<^verbatim>\<open>while row is not None\<close> over the rows of one table.\<close>

fun write_rows ::
  "string \<Rightarrow> string list \<Rightarrow> sql_value list list \<Rightarrow> (string \<times> (string \<times> string) list) list" where
  "write_rows table_name row_keys [] = []"
| "write_rows table_name row_keys (row # rows) =
     (''t_'' @ table_name, sub_elements (zip row_keys row)) # write_rows table_name row_keys rows"

fun write_tables :: "database \<Rightarrow> string list \<Rightarrow> (string \<times> (string \<times> string) list) list" where
  "write_tables d [] = []"
| "write_tables d (table_name # rest) =
     (if table_name = META_TABLE then write_tables d rest
      else (case map_of (db_tables d) table_name of
              None \<Rightarrow> write_tables d rest
            | Some tb \<Rightarrow>
                write_rows table_name (map cn_name (tb_columns tb)) (map snd (tb_rows tb))
                  @ write_tables d rest))"

definition save :: "database \<Rightarrow> error + document" where
  "save d =
     (let tables = map fst (db_tables d);
          plexos_meta = read_meta d
      in case map_of plexos_meta (TextV ''root_element'') of
           None \<Rightarrow> Inl KeyError
         | Some root \<Rightarrow>
             (case map_of plexos_meta (TextV ''namespace'') of
                None \<Rightarrow> Inl KeyError
              | Some plexos_ns \<Rightarrow>
                  Inr \<lparr>doc_root = py_format root, doc_namespace = py_format plexos_ns,
                       doc_records = write_tables d (sort tables),
                       doc_close = py_format root\<rparr>))"

subsection \<open>Sample files and databases\<close>

text \<open>\<^verbatim>\<open>etree.iterparse\<close> on a parsed file: the events of an element, and of a file whose
  root element declares the default namespace.\<close>

datatype xml = Element string "string option" "xml list"

fun tag_of :: "xml \<Rightarrow> string" where
  "tag_of (Element tag text children) = tag"

fun text_of :: "xml \<Rightarrow> string option" where
  "text_of (Element tag text children) = text"

fun events_of :: "xml \<Rightarrow> event list" where
  "events_of (Element tag text children) =
     Start tag # concat (map events_of children) @
       [End tag (map (\<lambda>ch. (tag_of ch, text_of ch)) children)]"

definition iterparse :: "string \<Rightarrow> xml \<Rightarrow> event list" where
  "iterparse uri root = StartNs [] uri # events_of root"

definition plexos_ns :: string where
  "plexos_ns = ''http://tempuri.org/MasterDataSet.xsd''"

definition field_el :: "string \<Rightarrow> string \<Rightarrow> xml" where
  "field_el name text = Element (''{'' @ plexos_ns @ ''}'' @ name) (Some text) []"

definition record_el :: "string \<Rightarrow> xml list \<Rightarrow> xml" where
  "record_el name children = Element (''{'' @ plexos_ns @ ''}'' @ name) None children"

text \<open>
  A file whose first \<^verbatim>\<open>t_object\<close> record has no \<^verbatim>\<open>object_id\<close>:

  \<^verbatim>\<open><MasterDataSet xmlns="http://tempuri.org/MasterDataSet.xsd">\<close>
  \<^verbatim>\<open><t_class><class_id>1</class_id><name>System</name></t_class>\<close>
  \<^verbatim>\<open><t_object><name>System</name><class_id>1</class_id></t_object>\<close>
  \<^verbatim>\<open><t_object><object_id>7</object_id><class_id>1</class_id><name>B</name></t_object>\<close>
  \<^verbatim>\<open><t_object><object_id>3</object_id><class_id>1</class_id><name>A</name></t_object>\<close>
  \<^verbatim>\<open></MasterDataSet>\<close>
\<close>

definition late_key_file :: xml where
  "late_key_file =
     record_el ''MasterDataSet''
       [record_el ''t_class'' [field_el ''class_id'' ''1'', field_el ''name'' ''System''],
        record_el ''t_object'' [field_el ''name'' ''System'', field_el ''class_id'' ''1''],
        record_el ''t_object'' [field_el ''object_id'' ''7'', field_el ''class_id'' ''1'', field_el ''name'' ''B''],
        record_el ''t_object'' [field_el ''object_id'' ''3'', field_el ''class_id'' ''1'', field_el ''name'' ''A'']]"


text \<open>
  The contract of the serializer in the words of the specification: a row is emitted as a
  flat record named after its table, with one field for every column whose value is set
  (not \<^verbatim>\<open>NULL\<close>; an empty text is a value), in the order the columns are declared; a table
  is emitted row by row in the order of the table.
\<close>

definition emitted_record ::
  "string \<Rightarrow> sql_column list \<Rightarrow> sql_value list \<Rightarrow> string \<times> (string \<times> string) list" where
  "emitted_record t cols cells =
     (''t_'' @ t,
      map (\<lambda>(c, v). (cn_name c, py_format v)) (filter (\<lambda>(c, v). v \<noteq> Null) (zip cols cells)))"

definition emitted_table :: "database \<Rightarrow> string \<Rightarrow> (string \<times> (string \<times> string) list) list" where
  "emitted_table d t =
     (case map_of (db_tables d) t of
        None \<Rightarrow> []
      | Some tb \<Rightarrow> map (\<lambda>(rowid, cells). emitted_record t (tb_columns tb) cells) (tb_rows tb))"

text \<open>What \<^verbatim>\<open>load\<close> has done before the rebuild, and the rows of a table, its columns and
  the indexes in a result.\<close>

definition before_rebuild :: "(string list \<Rightarrow> string list) \<Rightarrow> event list \<Rightarrow> error + database" where
  "before_rebuild order source = and_then (ingest order source loader0) (\<lambda>l. Inr (ld_dbcon l))"

definition noted_forkeys ::
  "(string list \<Rightarrow> string list) \<Rightarrow> event list \<Rightarrow> error + (string \<times> string) list" where
  "noted_forkeys order source = and_then (ingest order source loader0) (\<lambda>l. Inr (ld_forkeys l))"

definition table_rows :: "error + database \<Rightarrow> string \<Rightarrow> (int \<times> sql_value list) list option" where
  "table_rows r t =
     (case r of Inl e \<Rightarrow> None | Inr d \<Rightarrow> map_option tb_rows (map_of (db_tables d) t))"

definition table_columns :: "error + database \<Rightarrow> string \<Rightarrow> string list option" where
  "table_columns r t =
     (case r of Inl e \<Rightarrow> None
      | Inr d \<Rightarrow> map_option (\<lambda>tb. map cn_name (tb_columns tb)) (map_of (db_tables d) t))"

definition indexes_of :: "error + database \<Rightarrow> (string \<times> string \<times> string list) list" where
  "indexes_of r = (case r of Inl e \<Rightarrow> [] | Inr d \<Rightarrow> db_indexes d)"

definition saved_db :: database where
  "saved_db =
     \<lparr>db_tables =
        [(''object'',
          \<lparr>tb_columns = [\<lparr>cn_name = ''object_id'', cn_type = INTEGER, cn_pk = True\<rparr>,
                         \<lparr>cn_name = ''class_id'', cn_type = INTEGER, cn_pk = False\<rparr>,
                         \<lparr>cn_name = ''name'', cn_type = TEXT, cn_pk = False\<rparr>,
                         \<lparr>cn_name = ''description'', cn_type = TEXT, cn_pk = False\<rparr>],
           tb_foreign = [(''class_id'', ''class'', ''class_id'')],
           tb_rows = [(1, [IntV 1, IntV 1, TextV ''System'', Null]),
                      (2, [IntV 2, IntV 2, TextV ''G1'', TextV []])]\<rparr>),
         (''plexos_meta'',
          \<lparr>tb_columns = [\<lparr>cn_name = ''plexos_meta_id'', cn_type = INTEGER, cn_pk = True\<rparr>,
                         \<lparr>cn_name = ''name'', cn_type = TEXT, cn_pk = False\<rparr>,
                         \<lparr>cn_name = ''value'', cn_type = TEXT, cn_pk = False\<rparr>],
           tb_foreign = [],
           tb_rows = [(1, [IntV 1, TextV ''namespace'', TextV ''http://tempuri.org/MasterDataSet.xsd'']),
                      (2, [IntV 2, TextV ''root_element'', TextV ''MasterDataSet''])]\<rparr>),
         (''class'',
          \<lparr>tb_columns = [\<lparr>cn_name = ''class_id'', cn_type = INTEGER, cn_pk = True\<rparr>,
                         \<lparr>cn_name = ''name'', cn_type = TEXT, cn_pk = False\<rparr>],
           tb_foreign = [],
           tb_rows = [(1, [IntV 1, TextV ''System'']), (2, [IntV 2, TextV ''Generator''])]\<rparr>)],
      db_indexes = []\<rparr>"

section \<open>A sample store\<close>

text \<open>
  A small store used to run the operations: the System object, a generator \<^verbatim>\<open>G1\<close> and a
  scenario \<^verbatim>\<open>S1\<close>, both members of System; four properties of generators under System, two
  of them (\<^verbatim>\<open>Units\<close> and \<^verbatim>\<open>Commit\<close>) with the input mask \<^verbatim>\<open>0;"Off";1;"On"\<close>; one value of
  \<^verbatim>\<open>Units\<close>, tagged with the scenario, two values of \<^verbatim>\<open>Heat Rate\<close> in bands 1 and 2, and
  none of \<^verbatim>\<open>Max Capacity\<close> and \<^verbatim>\<open>Commit\<close>.
\<close>

definition units_mask :: string where
  "units_mask = ''0;'' @ [CHR 0x22] @ ''Off'' @ [CHR 0x22] @ '';1;'' @ [CHR 0x22] @ ''On'' @ [CHR 0x22]"

definition sample_db :: db where
  "sample_db =
     \<lparr>classes = [\<lparr>c_class_id = 1, c_name = ''System''\<rparr>, \<lparr>c_class_id = 2, c_name = ''Generator''\<rparr>,
                 \<lparr>c_class_id = 3, c_name = ''Scenario''\<rparr>],
      objects = [\<lparr>o_object_id = 1, o_class_id = 1, o_name = ''System''\<rparr>,
                 \<lparr>o_object_id = 2, o_class_id = 2, o_name = ''G1''\<rparr>,
                 \<lparr>o_object_id = 3, o_class_id = 3, o_name = ''S1''\<rparr>],
      collections = [\<lparr>col_collection_id = 1, col_parent_class_id = 1, col_child_class_id = 2\<rparr>,
                     \<lparr>col_collection_id = 2, col_parent_class_id = 1, col_child_class_id = 3\<rparr>],
      memberships = [\<lparr>m_membership_id = 1, m_parent_object_id = 1, m_child_object_id = 2\<rparr>,
                     \<lparr>m_membership_id = 2, m_parent_object_id = 1, m_child_object_id = 3\<rparr>],
      properties = [\<lparr>p_property_id = 1, p_collection_id = 1, p_name = ''Max Capacity'',
                      p_input_mask = None, p_is_dynamic = Some ''false'', p_is_enabled = Some ''true''\<rparr>,
                    \<lparr>p_property_id = 2, p_collection_id = 1, p_name = ''Units'',
                      p_input_mask = Some units_mask, p_is_dynamic = Some ''false'',
                      p_is_enabled = Some ''true''\<rparr>,
                    \<lparr>p_property_id = 3, p_collection_id = 1, p_name = ''Heat Rate'',
                      p_input_mask = None, p_is_dynamic = Some ''false'', p_is_enabled = Some ''true''\<rparr>,
                    \<lparr>p_property_id = 4, p_collection_id = 1, p_name = ''Commit'',
                      p_input_mask = Some units_mask, p_is_dynamic = Some ''false'',
                      p_is_enabled = Some ''true''\<rparr>],
      data = [\<lparr>d_data_id = 1, d_uid = Some 1, d_membership_id = 1, d_property_id = 2, d_value = ''1''\<rparr>,
              \<lparr>d_data_id = 2, d_uid = Some 2, d_membership_id = 1, d_property_id = 3, d_value = ''9''\<rparr>,
              \<lparr>d_data_id = 3, d_uid = Some 3, d_membership_id = 1, d_property_id = 3, d_value = ''8''\<rparr>],
      bands = [\<lparr>b_data_id = 3, b_band_id = 2\<rparr>],
      tags = [\<lparr>t_data_id = 1, t_object_id = 3\<rparr>],
      texts = [], attributes = [], attribute_data = [],
      config = [\<lparr>cfg_element = ''Dynamic'', cfg_value = ''0''\<rparr>]\<rparr>"

definition sample :: coad where
  "sample =
     \<lparr>table_list = [''class'', ''object'', ''collection'', ''membership'', ''property'', ''data'',
                     ''band'', ''tag'', ''text'', ''config'', ''plexos_meta''],
      has_data_uid = True, durable = sample_db, working = sample_db\<rparr>"

definition system_obj :: object_row where
  "system_obj = \<lparr>o_object_id = 1, o_class_id = 1, o_name = ''System''\<rparr>"

definition g1 :: object_row where
  "g1 = \<lparr>o_object_id = 2, o_class_id = 2, o_name = ''G1''\<rparr>"

text \<open>The same classes and objects from a file without any \<^verbatim>\<open>t_data\<close> record.\<close>

text \<open>The sample with an empty \<^verbatim>\<open>data\<close> table, and the sample with its last data row
  numbered \<open>2\<^sup>6\<^sup>3 - 1\<close>, the largest integer SQLite holds.\<close>

definition sample_empty :: coad where
  "sample_empty =
     sample\<lparr>durable := sample_db\<lparr>data := [], bands := [], tags := []\<rparr>,
            working := sample_db\<lparr>data := [], bands := [], tags := []\<rparr>\<rparr>"

definition last_data :: "data_row list" where
  "last_data =
     [\<lparr>d_data_id = 1, d_uid = Some 1, d_membership_id = 1, d_property_id = 2, d_value = ''1''\<rparr>,
      \<lparr>d_data_id = 2, d_uid = Some 2, d_membership_id = 1, d_property_id = 3, d_value = ''9''\<rparr>,
      \<lparr>d_data_id = 9223372036854775807, d_uid = Some 3, d_membership_id = 1, d_property_id = 3,
        d_value = ''8''\<rparr>]"

definition sample_last :: coad where
  "sample_last =
     sample\<lparr>durable := sample_db\<lparr>data := last_data,
                                   bands := [\<lparr>b_data_id = 9223372036854775807, b_band_id = 2\<rparr>]\<rparr>,
            working := sample_db\<lparr>data := last_data,
                                   bands := [\<lparr>b_data_id = 9223372036854775807, b_band_id = 2\<rparr>]\<rparr>\<rparr>"

definition sample_nodata :: coad where
  "sample_nodata =
     (let d = sample_db\<lparr>data := [], bands := [], tags := []\<rparr>
      in \<lparr>table_list = [''class'', ''object'', ''collection'', ''membership'', ''property'',
                         ''config'', ''plexos_meta''],
          has_data_uid = False, durable = d, working = d\<rparr>)"

section \<open>Reading properties\<close>

lemma set_order_by_band: "set (order_by_band c rows) = set rows"
  by (simp add: order_by_band_def)



text \<open>
  C10. When the file had no \<^verbatim>\<open>data\<close> table, \<^verbatim>\<open>get_property\<close> returns \<^verbatim>\<open>None\<close> and
  \<^verbatim>\<open>get_properties\<close> the empty dictionary, whatever the object, the name and the tag (the
  tag is not even looked up), and neither raises.
\<close>

theorem no_data_table_reads:
  "\<not> has_table c ''data'' \<Longrightarrow>
   get_property c self name tag = Inr None \<and> get_properties plan c self = Inr []"
  by (simp add: get_property_def get_properties_def)

theorem no_data_table_reads_witness:
  "\<not> has_table sample_nodata ''data'' \<and>
   get_property sample_nodata g1 ''Units'' (TagName ''No.Such'') = Inr None \<and>
   get_properties (\<lambda>rows. rows) sample_nodata g1 = Inr []"
proof -
  have h: "\<not> has_table sample_nodata ''data''" by code_simp
  from h no_data_table_reads[OF h] show ?thesis by simp
qed

section \<open>The configuration table\<close>

lemma update_config_absent:
  "key \<notin> set (map cfg_element (config d)) \<Longrightarrow> update_config key v d = d"
proof -
  assume a: "key \<notin> set (map cfg_element (config d))"
  have "map (\<lambda>r. if cfg_element r = key then r\<lparr>cfg_value := v\<rparr> else r) (config d) = config d"
    using a by (intro map_idI) auto
  then show ?thesis by (simp add: update_config_def)
qed

lemma fetchone_filter_None:
  "fetchone (filter P xs) = None \<longleftrightarrow> (\<forall>x \<in> set xs. \<not> P x)"
  by (induction xs) (auto simp: fetchone_def)

lemma get_config_updated:
  "key \<in> set (map cfg_element rows) \<Longrightarrow>
   fetchone (filter (\<lambda>r. cfg_element r = key)
      (map (\<lambda>r. if cfg_element r = key then r\<lparr>cfg_value := v\<rparr> else r) rows)) =
   Some (the (fetchone (filter (\<lambda>r. cfg_element r = key) rows))\<lparr>cfg_value := v\<rparr>)"
  by (induction rows) (auto simp: fetchone_def)

text \<open>
  C6, as stated, fails: on the sample, whose \<^verbatim>\<open>config\<close> table has no element \<^verbatim>\<open>Missing\<close>,
  \<^verbatim>\<open>get_config\<close> raises but \<^verbatim>\<open>set_config\<close> returns the value and leaves the store as it was.
\<close>

theorem set_config_missing_key_counterexample:
  "get_config sample ''Missing'' = Inl (NoSuchConfig ''Missing'') \<and>
   set_config sample ''Missing'' ''1'' = (Inr ''1'', sample)"
  by code_simp

text \<open>
  C6, amended. With a \<^verbatim>\<open>config\<close> table: for a key that is not an element of the table,
  \<^verbatim>\<open>get_config\<close> raises, and \<^verbatim>\<open>set_config\<close> raises nothing, returns the value and changes
  no row; for a key that is an element, \<^verbatim>\<open>set_config\<close> returns the value and \<^verbatim>\<open>get_config\<close>
  then returns it; in both cases \<^verbatim>\<open>set_config\<close> has committed when it returns.
\<close>

theorem config_get_set:
  "has_table c ''config'' \<Longrightarrow>
     (key \<notin> set (map cfg_element (config (working c))) \<longrightarrow>
        get_config c key = Inl (NoSuchConfig key) \<and> fst (set_config c key v) = Inr v \<and>
        working (snd (set_config c key v)) = working c)
   \<and> (key \<in> set (map cfg_element (config (working c))) \<longrightarrow>
        fst (set_config c key v) = Inr v \<and> get_config (snd (set_config c key v)) key = Inr v)
   \<and> durable (snd (set_config c key v)) = working (snd (set_config c key v))"
proof (intro conjI impI)
  assume h: "has_table c ''config''"
  show "durable (snd (set_config c key v)) = working (snd (set_config c key v))"
    using h by (simp add: set_config_def commit_def)
  {
    assume a: "key \<notin> set (map cfg_element (config (working c)))"
    then have "fetchone (filter (\<lambda>r. cfg_element r = key) (config (working c))) = None"
      by (auto simp: fetchone_filter_None)
    then show "get_config c key = Inl (NoSuchConfig key)"
      using h by (simp add: get_config_def)
    show "fst (set_config c key v) = Inr v" using h by (simp add: set_config_def)
    show "working (snd (set_config c key v)) = working c"
      using h update_config_absent[OF a] by (simp add: set_config_def commit_def)
  }
  {
    assume a: "key \<in> set (map cfg_element (config (working c)))"
    show "fst (set_config c key v) = Inr v" using h by (simp add: set_config_def)
    show "get_config (snd (set_config c key v)) key = Inr v"
      using h get_config_updated[OF a, of v]
      by (simp add: set_config_def get_config_def commit_def has_table_def update_config_def)
  }
qed

theorem config_get_set_witness:
  "has_table sample ''config'' \<and>
   ''Missing'' \<notin> set (map cfg_element (config (working sample))) \<and>
   get_config sample ''Missing'' = Inl (NoSuchConfig ''Missing'') \<and>
   fst (set_config sample ''Missing'' ''1'') = Inr ''1'' \<and>
   working (snd (set_config sample ''Missing'' ''1'')) = working sample \<and>
   ''Dynamic'' \<in> set (map cfg_element (config (working sample))) \<and>
   get_config (snd (set_config sample ''Dynamic'' ''-1'')) ''Dynamic'' = Inr ''-1''"
proof -
  have h: "has_table sample ''config''" by code_simp
  have a: "''Missing'' \<notin> set (map cfg_element (config (working sample)))" by code_simp
  have b: "''Dynamic'' \<in> set (map cfg_element (config (working sample)))" by code_simp
  from h a b config_get_set[OF h, of "''Missing''" "''1''"] config_get_set[OF h, of "''Dynamic''" "''-1''"]
  show ?thesis by simp
qed

section \<open>Tagging and committing\<close>

text \<open>
  C5. The claim holds of the intended behaviour and of the docstring of \<^verbatim>\<open>tag_property\<close>
  (``System.System throws an exception''), but not of the code: the guard compares the
  integer \<^verbatim>\<open>object_id\<close> with the string \<^verbatim>\<open>'1'\<close>, which is never equal. On the sample,
  tagging \<^verbatim>\<open>Units\<close> of \<^verbatim>\<open>G1\<close> with \<^verbatim>\<open>System.System\<close> (object 1) raises nothing, inserts the
  tag row \<^verbatim>\<open>(1, 1)\<close> and commits it.
\<close>

theorem tag_property_system_not_refused:
  "and_then (get_by_hierarchy sample ''System.System'') as_object = Inr system_obj \<and>
   o_object_id system_obj = 1 \<and>
   tag_property sample g1 ''Units'' ''System.System'' =
     (Inr (),
      sample\<lparr>durable := sample_db\<lparr>tags := [\<lparr>t_data_id = 1, t_object_id = 3\<rparr>, \<lparr>t_data_id = 1, t_object_id = 1\<rparr>]\<rparr>,
             working := sample_db\<lparr>tags := [\<lparr>t_data_id = 1, t_object_id = 3\<rparr>, \<lparr>t_data_id = 1, t_object_id = 1\<rparr>]\<rparr>\<rparr>)"
  by code_simp

text \<open>
  C9. \<^verbatim>\<open>delete_property\<close> and \<^verbatim>\<open>tag_property\<close> end with \<^verbatim>\<open>commit\<close>, and so do the other
  branches of \<^verbatim>\<open>set_property\<close>; \<^verbatim>\<open>untag_property\<close> and the branch of \<^verbatim>\<open>set_property\<close> that
  inserts new data for a native property return without it. On the sample, untagging
  \<^verbatim>\<open>Units\<close> from the scenario deletes the tag row in the connection and returns with the
  durable store still holding it; setting \<^verbatim>\<open>Max Capacity\<close>, which has no data, to a list
  returns with three data rows the durable store does not have.
\<close>

theorem untag_and_insert_not_committed:
  "untag_property sample g1 ''Units'' ''Scenario.S1'' =
     (Inr (), sample\<lparr>working := sample_db\<lparr>tags := []\<rparr>\<rparr>) \<and>
   fst (set_property sample g1 ''Max Capacity'' (Multi [PStr ''10'', PStr ''20'', PStr ''30'']) ''System.System'' None)
     = Inr () \<and>
   map d_data_id (data (working (snd (set_property sample g1 ''Max Capacity''
      (Multi [PStr ''10'', PStr ''20'', PStr ''30'']) ''System.System'' None)))) = [1, 2, 3, 4, 5, 6] \<and>
   map d_data_id (data (durable (snd (set_property sample g1 ''Max Capacity''
      (Multi [PStr ''10'', PStr ''20'', PStr ''30'']) ''System.System'' None)))) = [1, 2, 3]"
  by code_simp

section \<open>Writing a native property\<close>

lemma fetchone_filter_Some:
  "fetchone (filter P xs) = Some x \<Longrightarrow> P x \<and> x \<in> set xs"
  by (induction xs) (auto simp: fetchone_def split: if_splits)

lemma set_property_native:
  assumes "native_case c self name tag = Some (tag_obj, member, prop, all_data)"
  shows "set_property c self name val tag dt =
           native_write c member (p_property_id prop) prop all_data val"
  using assms
  by (auto simp: native_case_def set_property_def set_native_def
           split: sum.splits option.splits dest: fetchone_filter_Some)

lemma native_case_data:
  assumes "native_case c self name tag = Some (tag_obj, member, prop, all_data)"
  shows "native_data c (m_membership_id member) (p_property_id prop) = Inr all_data"
  using assms
  by (auto simp: native_case_def split: sum.splits option.splits dest: fetchone_filter_Some)

lemma mask_values_length: "mask_values vs m = Inr ms \<Longrightarrow> length ms = length vs"
  by (induction vs arbitrary: ms) (auto simp: and_then_def split: sum.splits)

lemma mask_values_Cons:
  "mask_values (v # vs) m = Inr ms \<Longrightarrow>
   \<exists>k ks. ms = k # ks \<and> get_mask_value v m = Inr k \<and> mask_values vs m = Inr ks"
  by (auto simp: and_then_def split: sum.splits)

lemma overwrite_values_ok:
  "length ids = length vs \<Longrightarrow> mask_values vs m = Inr ms \<Longrightarrow> ids \<noteq> [] \<Longrightarrow>
   overwrite_values c m ids vs =
     (Inr (), c\<lparr>durable := foldl (\<lambda>d (i, k). update_data_value k i d) (working c)
                            (zip ids (map sql_text ms)),
              working := foldl (\<lambda>d (i, k). update_data_value k i d) (working c)
                            (zip ids (map sql_text ms))\<rparr>)"
proof (induction ids vs arbitrary: c ms rule: list_induct2)
  case Nil
  then show ?case by simp
next
  case (Cons i ids v vs)
  from mask_values_Cons[OF Cons.prems(1)] obtain k ks where
    ms: "ms = k # ks" and k: "get_mask_value v m = Inr k" and ks: "mask_values vs m = Inr ks"
    by blast
  show ?case
  proof (cases ids)
    case Nil
    with Cons.hyps have "vs = []" by simp
    with Nil ks have "ks = []" by simp
    with Nil \<open>vs = []\<close> ms k show ?thesis by (simp add: commit_def)
  next
    case (Cons j js)
    then have ne: "ids \<noteq> []" by simp
    show ?thesis
      using Cons.IH[OF ks ne, of "commit (c\<lparr>working := update_data_value (sql_text k) i (working c)\<rparr>)"] ms k
      by (simp add: commit_def)
  qed
qed

lemma data_update_data_value:
  "data (update_data_value k i d) = map (\<lambda>r. if d_data_id r = i then r\<lparr>d_value := k\<rparr> else r) (data d)"
  by (simp add: update_data_value_def)

lemma foldl_update_data_value:
  "distinct ids \<Longrightarrow> length ids = length ms \<Longrightarrow>
   foldl (\<lambda>d (i, k). update_data_value k i d) d (zip ids ms) =
   d\<lparr>data := map (\<lambda>r. case map_of (zip ids ms) (d_data_id r) of
                         None \<Rightarrow> r | Some k \<Rightarrow> r\<lparr>d_value := k\<rparr>) (data d)\<rparr>"
proof (induction ids ms arbitrary: d rule: list_induct2')
  case 1
  then show ?case by simp
next
  case (4 i ids k ms)
  then have IH: "\<And>d. foldl (\<lambda>d (i, k). update_data_value k i d) d (zip ids ms) =
      d\<lparr>data := map (\<lambda>r. case map_of (zip ids ms) (d_data_id r) of
                         None \<Rightarrow> r | Some k \<Rightarrow> r\<lparr>d_value := k\<rparr>) (data d)\<rparr>"
    by simp
  from 4 have notin: "map_of (zip ids ms) i = None"
    by (auto simp: map_of_eq_None_iff dest: set_zip_leftD)
  have "foldl (\<lambda>d (i, k). update_data_value k i d) d (zip (i # ids) (k # ms)) =
        foldl (\<lambda>d (i, k). update_data_value k i d) (update_data_value k i d) (zip ids ms)"
    by simp
  also have "\<dots> = (update_data_value k i d)\<lparr>data := map (\<lambda>r. case map_of (zip ids ms) (d_data_id r) of
                         None \<Rightarrow> r | Some k \<Rightarrow> r\<lparr>d_value := k\<rparr>) (data (update_data_value k i d))\<rparr>"
    by (rule IH)
  also have "\<dots> = d\<lparr>data := map (\<lambda>r. case map_of (zip (i # ids) (k # ms)) (d_data_id r) of
                         None \<Rightarrow> r | Some k \<Rightarrow> r\<lparr>d_value := k\<rparr>) (data d)\<rparr>"
    using notin by (auto simp: update_data_value_def)
  finally show ?case .
qed simp_all


text \<open>
  C4. In the native case of \<^verbatim>\<open>set_property\<close> (\<open>native_case\<close> gives the existing data
  \<open>all_data\<close> of the membership and property): with exactly one data row a list value raises
  and the store is returned as it was; with more than one, a single value raises, a list of
  another length raises, both without any change, and a list of the same length whose
  values pass the input mask (\<open>mask_values\<close>) is written element by element, the i-th
  value (as the text SQLite stores for it) to the i-th data row of \<open>all_data\<close>, every other
  row unchanged, and committed.
  \<open>all_data\<close> is in band order where the data table has a \<^verbatim>\<open>uid\<close> (a row without band row
  first), and in \<^verbatim>\<open>data_id\<close> order otherwise. The data identifiers are distinct when no
  data row has two band rows.
\<close>

theorem native_set_arity:
  assumes nc: "native_case c self name tag = Some (tag_obj, member, prop, all_data)"
  shows
  "(length all_data = 1 \<longrightarrow>
      set_property c self name (Multi vs) tag dt = (Inl ListForSingle, c)) \<and>
   (1 < length all_data \<longrightarrow>
      set_property c self name (Single v) tag dt = (Inl SingleForList, c)) \<and>
   (1 < length all_data \<and> length vs \<noteq> length all_data \<longrightarrow>
      set_property c self name (Multi vs) tag dt =
        (Inl (LengthMismatch (length vs) (length all_data)), c)) \<and>
   (1 < length all_data \<and> length vs = length all_data \<and> distinct all_data \<and>
    mask_values vs (p_input_mask prop) = Inr ms \<longrightarrow>
      set_property c self name (Multi vs) tag dt =
        (Inr (),
         c\<lparr>durable := (working c)\<lparr>data :=
                map (\<lambda>r. case map_of (zip all_data (map sql_text ms)) (d_data_id r) of
                            None \<Rightarrow> r | Some k \<Rightarrow> r\<lparr>d_value := k\<rparr>) (data (working c))\<rparr>,
           working := (working c)\<lparr>data :=
                map (\<lambda>r. case map_of (zip all_data (map sql_text ms)) (d_data_id r) of
                            None \<Rightarrow> r | Some k \<Rightarrow> r\<lparr>d_value := k\<rparr>) (data (working c))\<rparr>\<rparr>)) \<and>
   (has_data_uid c \<longrightarrow>
      all_data = map fst (sort_key snd (native_rows c (m_membership_id member) (p_property_id prop))) \<and>
      sorted (map snd (sort_key snd (native_rows c (m_membership_id member) (p_property_id prop))))) \<and>
   (\<not> has_data_uid c \<longrightarrow> sorted all_data)"
proof -
  note sp = set_property_native[OF nc]
  have one: "length all_data = 1 \<Longrightarrow>
      set_property c self name (Multi vs) tag dt = (Inl ListForSingle, c)"
    by (simp add: sp native_write_def)
  have single: "1 < length all_data \<Longrightarrow>
      set_property c self name (Single v) tag dt = (Inl SingleForList, c)"
    by (auto simp: sp native_write_def)
  have mismatch: "1 < length all_data \<Longrightarrow> length vs \<noteq> length all_data \<Longrightarrow>
      set_property c self name (Multi vs) tag dt =
        (Inl (LengthMismatch (length vs) (length all_data)), c)"
    by (auto simp: sp native_write_def)
  have multi: "set_property c self name (Multi vs) tag dt =
        (Inr (),
         c\<lparr>durable := (working c)\<lparr>data :=
                map (\<lambda>r. case map_of (zip all_data (map sql_text ms)) (d_data_id r) of
                            None \<Rightarrow> r | Some k \<Rightarrow> r\<lparr>d_value := k\<rparr>) (data (working c))\<rparr>,
           working := (working c)\<lparr>data :=
                map (\<lambda>r. case map_of (zip all_data (map sql_text ms)) (d_data_id r) of
                            None \<Rightarrow> r | Some k \<Rightarrow> r\<lparr>d_value := k\<rparr>) (data (working c))\<rparr>\<rparr>)"
    if a: "1 < length all_data" "length vs = length all_data" "distinct all_data"
          "mask_values vs (p_input_mask prop) = Inr ms"
  proof -
    from a(1) have ne: "all_data \<noteq> []" by auto
    from a(2) mask_values_length[OF a(4)] have len: "length all_data = length (map sql_text ms)"
      by simp
    have "set_property c self name (Multi vs) tag dt =
            overwrite_values c (p_input_mask prop) all_data vs"
      using a(1,2) by (auto simp: sp native_write_def)
    also note overwrite_values_ok[OF a(2)[symmetric] a(4) ne, of c]
    finally show ?thesis
      by (simp add: foldl_update_data_value[OF a(3) len])
  qed
  have nd: "native_data c (m_membership_id member) (p_property_id prop) = Inr all_data"
    by (rule native_case_data[OF nc])
  have band: "has_data_uid c \<Longrightarrow>
      all_data = map fst (sort_key snd (native_rows c (m_membership_id member) (p_property_id prop)))"
    using nd by (auto simp: native_data_def split: if_splits)
  have byid: "\<not> has_data_uid c \<Longrightarrow> sorted all_data"
    using nd by (auto simp: native_data_def split: if_splits)
  show ?thesis
    using one single mismatch multi band byid by (intro conjI impI) auto
qed


text \<open>On the sample: \<^verbatim>\<open>Units\<close> has one data row, \<^verbatim>\<open>Heat Rate\<close> two (data 2 and 3, bands 1
  and 2).\<close>

theorem native_set_arity_witness:
  "native_case sample g1 ''Units'' ''System.System'' =
     Some (system_obj, \<lparr>m_membership_id = 1, m_parent_object_id = 1, m_child_object_id = 2\<rparr>,
           \<lparr>p_property_id = 2, p_collection_id = 1, p_name = ''Units'',
             p_input_mask = Some units_mask, p_is_dynamic = Some ''false'',
             p_is_enabled = Some ''true''\<rparr>, [1]) \<and>
   set_property sample g1 ''Units'' (Multi [PStr ''On'']) ''System.System'' None =
     (Inl ListForSingle, sample) \<and>
   native_case sample g1 ''Heat Rate'' ''System.System'' =
     Some (system_obj, \<lparr>m_membership_id = 1, m_parent_object_id = 1, m_child_object_id = 2\<rparr>,
           \<lparr>p_property_id = 3, p_collection_id = 1, p_name = ''Heat Rate'',
             p_input_mask = None, p_is_dynamic = Some ''false'', p_is_enabled = Some ''true''\<rparr>, [2, 3]) \<and>
   set_property sample g1 ''Heat Rate'' (Single (PInt 7)) ''System.System'' None =
     (Inl SingleForList, sample) \<and>
   set_property sample g1 ''Heat Rate'' (Multi [PInt 7]) ''System.System'' None =
     (Inl (LengthMismatch 1 2), sample) \<and>
   data (working (snd (set_property sample g1 ''Heat Rate'' (Multi [PInt 7, PStr ''6''])
      ''System.System'' None))) =
     [\<lparr>d_data_id = 1, d_uid = Some 1, d_membership_id = 1, d_property_id = 2, d_value = ''1''\<rparr>,
      \<lparr>d_data_id = 2, d_uid = Some 2, d_membership_id = 1, d_property_id = 3, d_value = ''7''\<rparr>,
      \<lparr>d_data_id = 3, d_uid = Some 3, d_membership_id = 1, d_property_id = 3, d_value = ''6''\<rparr>]"
proof -
  have nc1: "native_case sample g1 ''Units'' ''System.System'' =
     Some (system_obj, \<lparr>m_membership_id = 1, m_parent_object_id = 1, m_child_object_id = 2\<rparr>,
           \<lparr>p_property_id = 2, p_collection_id = 1, p_name = ''Units'',
             p_input_mask = Some units_mask, p_is_dynamic = Some ''false'',
             p_is_enabled = Some ''true''\<rparr>, [1])"
    by code_simp
  have nc2: "native_case sample g1 ''Heat Rate'' ''System.System'' =
     Some (system_obj, \<lparr>m_membership_id = 1, m_parent_object_id = 1, m_child_object_id = 2\<rparr>,
           \<lparr>p_property_id = 3, p_collection_id = 1, p_name = ''Heat Rate'',
             p_input_mask = None, p_is_dynamic = Some ''false'', p_is_enabled = Some ''true''\<rparr>, [2, 3])"
    by code_simp
  have mv: "mask_values [PInt 7, PStr ''6''] None = Inr [PInt 7, PStr ''6'']" by code_simp
  have tx: "sql_text (PInt 7) = ''7''" "sql_text (PStr ''6'') = ''6''" by code_simp+
  have dat: "data (working sample) =
     [\<lparr>d_data_id = 1, d_uid = Some 1, d_membership_id = 1, d_property_id = 2, d_value = ''1''\<rparr>,
      \<lparr>d_data_id = 2, d_uid = Some 2, d_membership_id = 1, d_property_id = 3, d_value = ''9''\<rparr>,
      \<lparr>d_data_id = 3, d_uid = Some 3, d_membership_id = 1, d_property_id = 3, d_value = ''8''\<rparr>]"
    by code_simp
  show ?thesis
    using nc1 nc2
      native_set_arity[OF nc1, where vs = "[PStr ''On'']" and dt = None]
      native_set_arity[OF nc2, where vs = "[PInt 7]" and v = "PInt 7" and dt = None]
      native_set_arity[OF nc2, where vs = "[PInt 7, PStr ''6'']" and v = "PInt 7" and dt = None
        and ms = "[PInt 7, PStr ''6'']"]
    by (simp add: mv tx dat del: mask_values.simps)
qed

section \<open>Setting a property that has no data\<close>

lemma insert_values_result:
  "has_table c ''band'' \<Longrightarrow> i + int (length vs) \<le> max_int64 \<Longrightarrow>
   insert_values c m pid [] i u b vs =
     (Inr (), c\<lparr>working := (working c)
        \<lparr>data := data (working c) @ inserted_data i u m pid (map sql_text vs),
         bands := bands (working c) @ inserted_bands i b (map sql_text vs)\<rparr>\<rparr>)"
proof (induction vs arbitrary: c i u b)
  case Nil
  then show ?case by simp
next
  case (Cons v vs)
  from Cons.prems(2) have le: "\<not> max_int64 < i + 1" and nx: "(i + 1) + int (length vs) \<le> max_int64"
    by simp_all
  have ht: "has_table (c\<lparr>working := X\<rparr>) ''band''" for X
    using Cons.prems(1) by (simp add: has_table_def)
  show ?case
    using Cons.prems(1) le
    by (simp add: Let_def Cons.IH[OF ht nx] insert_data_def insert_band_def)
qed

lemma inserted_data_ids:
  "d \<in> set (inserted_data i u m pid vs) \<Longrightarrow>
   i < d_data_id d \<and> d_data_id d \<le> i + int (length vs) \<and> d_membership_id d = m \<and> d_property_id d = pid"
  by (induction vs arbitrary: i u) (auto, force+)

lemma inserted_data_values: "map d_value (inserted_data i u m pid vs) = vs"
  by (induction vs arbitrary: i u) auto

lemma inserted_bands_filter:
  "filter (\<lambda>x. b_data_id x = j) (inserted_bands i b vs) =
     (if i < j \<and> j \<le> i + int (length vs) \<and> b + (j - i) > 1
      then [\<lparr>b_data_id = j, b_band_id = b + (j - i)\<rparr>] else [])"
proof (induction vs arbitrary: i b)
  case Nil
  then show ?case by simp
next
  case (Cons v vs)
  show ?case by (auto simp: Cons.IH)
qed

lemma mark_property_tables:
  "data (mark_property prop d) = data d" "bands (mark_property prop d) = bands d"
  "tags (mark_property prop d) = tags d" "texts (mark_property prop d) = texts d"
  "memberships (mark_property prop d) = memberships d"
  by (simp_all add: mark_property_def set_is_dynamic_def set_is_enabled_def Let_def)

lemma mark_property_properties:
  "\<exists>g. properties (mark_property prop d) = map g (properties d) \<and>
       (\<forall>p. p_property_id (g p) = p_property_id p \<and> p_name (g p) = p_name p \<and>
            p_input_mask (g p) = p_input_mask p)"
proof -
  let ?g1 = "\<lambda>p. if p_is_dynamic prop \<noteq> Some ''true'' \<and> p_property_id p = p_property_id prop
                 then p\<lparr>p_is_dynamic := Some ''true''\<rparr> else p"
  let ?g2 = "\<lambda>p. if p_is_enabled prop \<noteq> Some ''true'' \<and> p_property_id p = p_property_id prop
                 then p\<lparr>p_is_enabled := Some ''true''\<rparr> else p"
  have "properties (mark_property prop d) = map (?g2 \<circ> ?g1) (properties d)"
    by (auto simp: mark_property_def set_is_dynamic_def set_is_enabled_def Let_def o_def)
  moreover have "\<forall>p. p_property_id ((?g2 \<circ> ?g1) p) = p_property_id p \<and>
      p_name ((?g2 \<circ> ?g1) p) = p_name p \<and> p_input_mask ((?g2 \<circ> ?g1) p) = p_input_mask p"
    by simp
  ultimately show ?thesis by blast
qed

lemma native_write_insert:
  assumes "last_ids c = Inr (Some i, Some u)" and "has_table c ''band''"
      and "mask_values (as_list val) (p_input_mask prop) = Inr ms"
      and "i + int (length ms) \<le> max_int64"
  shows "native_write c member pid prop [] val =
     (Inr (), c\<lparr>working := (mark_property prop (working c))
                  \<lparr>data := data (working c) @
                     inserted_data i u (m_membership_id member) pid (map sql_text ms),
                   bands := bands (working c) @ inserted_bands i 0 (map sql_text ms)\<rparr>\<rparr>)"
proof (cases ms)
  case Nil
  have "(mark_property prop (working c))\<lparr>data := data (working c), bands := bands (working c)\<rparr>
          = mark_property prop (working c)"
    by (rule db.equality) (simp_all add: mark_property_tables)
  with Nil assms show ?thesis
    by (simp add: native_write_def insert_new_data_def)
next
  case (Cons a list)
  have ht: "has_table (c\<lparr>working := mark_property prop (working c)\<rparr>) ''band''"
    using assms(2) by (simp add: has_table_def)
  have "native_write c member pid prop [] val =
          insert_values (c\<lparr>working := mark_property prop (working c)\<rparr>)
            (m_membership_id member) pid [] i u 0 ms"
    using assms Cons by (simp add: native_write_def insert_new_data_def del: insert_values.simps)
  also have "\<dots> = (Inr (), c\<lparr>working := (mark_property prop (working c))
                  \<lparr>data := data (working c) @
                     inserted_data i u (m_membership_id member) pid (map sql_text ms),
                   bands := bands (working c) @ inserted_bands i 0 (map sql_text ms)\<rparr>\<rparr>)"
    using insert_values_result[OF ht assms(4), of "m_membership_id member" pid u 0]
    by (simp add: mark_property_tables del: insert_values.simps)
  finally show ?thesis .
qed

lemma filter_distinct_key:
  "distinct (map f xs) \<Longrightarrow> x \<in> set xs \<Longrightarrow> filter (\<lambda>y. f y = f x) xs = [x]"
proof (induction xs)
  case Nil
  then show ?case by simp
next
  case (Cons a xs)
  show ?case
  proof (cases "a = x")
    case True
    from Cons.prems(1) have "f a \<notin> f ` set xs" by simp
    then have "\<forall>y \<in> set xs. f y \<noteq> f a" by (metis imageI)
    with True have "\<forall>y \<in> set xs. f y \<noteq> f x" by simp
    then have "filter (\<lambda>y. f y = f x) xs = []" by (simp add: filter_empty_conv)
    with True show ?thesis by simp
  next
    case False
    with Cons show ?thesis by auto
  qed
qed

lemma view_rows_same:
  assumes "properties (working c') = map g (properties (working c))"
      and "\<forall>p. p_property_id (g p) = p_property_id p \<and> p_name (g p) = p_name p \<and>
               p_input_mask (g p) = p_input_mask p"
      and "memberships (working c') = memberships (working c)"
      and "tags (working c') = tags (working c)"
      and "texts (working c') = texts (working c)"
      and "table_list c' = table_list c"
      and "filter (\<lambda>b. b_data_id b = d_data_id d) (bands (working c')) =
           filter (\<lambda>b. b_data_id b = d_data_id d) (bands (working c))"
  shows "view_rows c' d = view_rows c d"
  using assms
  by (simp add: view_rows_def has_table_def filter_map o_def)

lemma view_rows_single:
  assumes "filter (\<lambda>p. p_property_id p = d_property_id d) (properties (working c)) = [p]"
      and "filter (\<lambda>m. m_membership_id m = d_membership_id d) (memberships (working c)) = [m]"
      and "filter (\<lambda>t. t_data_id t = d_data_id d) (tags (working c)) = []"
      and "filter (\<lambda>x. x_data_id x = d_data_id d) (texts (working c)) = []"
  shows "view_rows c d =
     map (\<lambda>b. \<lparr>v_data_id = d_data_id d, v_value = d_value d, v_name = p_name p,
       v_input_mask = p_input_mask p, v_child_object_id = m_child_object_id m,
       v_parent_object_id = m_parent_object_id m, v_tag_object_id = None,
       v_text_value = None, v_band_id = map_option b_band_id b\<rparr>)
       (left_join (has_table c ''band'')
          (filter (\<lambda>b. b_data_id b = d_data_id d) (bands (working c))))"
  using assms by (simp add: view_rows_def left_join_def)

lemma sql_max_ge: "sql_max xs = Some i \<Longrightarrow> x \<in> set xs \<Longrightarrow> x \<le> i"
proof -
  have fm: "\<And>a ys y. y \<in> set ys \<Longrightarrow> y \<le> foldl max (a::int) ys"
  proof -
    fix a :: int and ys y
    have both: "a \<le> foldl max a ys \<and> (\<forall>y \<in> set ys. y \<le> foldl max a ys)"
    proof (induction ys arbitrary: a)
      case Nil
      then show ?case by simp
    next
      case (Cons z zs)
      from Cons.IH[of "max a z"] show ?case by auto
    qed
    assume "y \<in> set ys"
    with both show "y \<le> foldl max a ys" by blast
  qed
  have ge: "\<And>a ys. (a::int) \<le> foldl max a ys"
  proof -
    fix a :: int and ys
    show "a \<le> foldl max a ys"
    proof (induction ys arbitrary: a)
      case Nil
      then show ?case by simp
    next
      case (Cons z zs)
      from Cons.IH[of "max a z"] show ?case by auto
    qed
  qed
  assume "sql_max xs = Some i" "x \<in> set xs"
  then show ?thesis
    by (cases xs) (auto simp: sql_max_def intro: fm ge)
qed

lemma no_rows_of_fresh:
  "list_all (\<lambda>b. f b \<in> set (map d_data_id ds)) bs \<Longrightarrow>
   \<forall>d \<in> set ds. d_data_id d \<le> i \<Longrightarrow> i < j \<Longrightarrow> filter (\<lambda>b. f b = j) bs = []"
proof -
  assume a: "list_all (\<lambda>b. f b \<in> set (map d_data_id ds)) bs"
    and b: "\<forall>d \<in> set ds. d_data_id d \<le> i" and c: "i < j"
  have "f x \<noteq> j" if "x \<in> set bs" for x
  proof -
    from a that have "f x \<in> d_data_id ` set ds" by (simp add: list_all_iff)
    then obtain d where "d \<in> set ds" "f x = d_data_id d" by blast
    with b c show ?thesis by auto
  qed
  then show ?thesis by (simp add: filter_empty_conv)
qed

lemma view_after_insert:
  assumes wf: "consistent (working c)"
      and mem: "member \<in> set (memberships (working c))"
      and prp: "prop \<in> set (properties (working c))"
      and band: "has_table c ''band''"
      and maxid: "\<forall>d \<in> set (data (working c)). d_data_id d \<le> i"
      and c': "c' = c\<lparr>working := (mark_property prop (working c))
                  \<lparr>data := data (working c) @ inserted_data i u (m_membership_id member) (p_property_id prop) ms,
                   bands := bands (working c) @ inserted_bands i 0 ms\<rparr>\<rparr>"
  shows "property_view c' = property_view c @
           map (new_row i member prop)
             (inserted_data i u (m_membership_id member) (p_property_id prop) ms)"
proof -
  let ?nd = "inserted_data i u (m_membership_id member) (p_property_id prop) ms"
  obtain g where g: "properties (mark_property prop (working c)) = map g (properties (working c))"
    and gp: "\<forall>p. p_property_id (g p) = p_property_id p \<and> p_name (g p) = p_name p \<and>
            p_input_mask (g p) = p_input_mask p"
    using mark_property_properties by blast
  have old: "view_rows c' d = view_rows c d" if d: "d \<in> set (data (working c))" for d
  proof (rule view_rows_same[where g = g])
    show "properties (working c') = map g (properties (working c))" by (simp add: c' g)
    show "\<forall>p. p_property_id (g p) = p_property_id p \<and> p_name (g p) = p_name p \<and>
            p_input_mask (g p) = p_input_mask p" by (rule gp)
    show "memberships (working c') = memberships (working c)" by (simp add: c' mark_property_tables)
    show "tags (working c') = tags (working c)" by (simp add: c' mark_property_tables)
    show "texts (working c') = texts (working c)" by (simp add: c' mark_property_tables)
    show "table_list c' = table_list c" by (simp add: c')
    from d maxid have "\<not> i < d_data_id d" by auto
    then show "filter (\<lambda>b. b_data_id b = d_data_id d) (bands (working c')) =
           filter (\<lambda>b. b_data_id b = d_data_id d) (bands (working c))"
      by (simp add: c' inserted_bands_filter)
  qed
  have new: "view_rows c' d = [new_row i member prop d]" if d: "d \<in> set ?nd" for d
  proof -
    from inserted_data_ids[OF d] have j: "i < d_data_id d" "d_data_id d \<le> i + int (length ms)"
      and dm: "d_membership_id d = m_membership_id member"
      and dp: "d_property_id d = p_property_id prop" by auto
    from wf have dpi: "distinct (map p_property_id (properties (working c)))"
      and dmi: "distinct (map m_membership_id (memberships (working c)))"
      and rb: "list_all (\<lambda>b. b_data_id b \<in> set (map d_data_id (data (working c)))) (bands (working c))"
      and rt: "list_all (\<lambda>t. t_data_id t \<in> set (map d_data_id (data (working c)))) (tags (working c))"
      and rx: "list_all (\<lambda>x. x_data_id x \<in> set (map d_data_id (data (working c)))) (texts (working c))"
      by (simp_all add: consistent_def)
    have p1: "filter (\<lambda>p. p_property_id p = d_property_id d) (properties (working c')) = [g prop]"
      using filter_distinct_key[OF dpi prp] gp by (simp add: c' g filter_map o_def dp)
    have m1: "filter (\<lambda>m. m_membership_id m = d_membership_id d) (memberships (working c')) = [member]"
      using filter_distinct_key[OF dmi mem] by (simp add: c' mark_property_tables dm)
    have t1: "filter (\<lambda>t. t_data_id t = d_data_id d) (tags (working c')) = []"
      using no_rows_of_fresh[OF rt maxid j(1)] by (simp add: c' mark_property_tables)
    have x1: "filter (\<lambda>x. x_data_id x = d_data_id d) (texts (working c')) = []"
      using no_rows_of_fresh[OF rx maxid j(1)] by (simp add: c' mark_property_tables)
    have b1: "filter (\<lambda>b. b_data_id b = d_data_id d) (bands (working c')) =
        (if d_data_id d - i > 1 then [\<lparr>b_data_id = d_data_id d, b_band_id = d_data_id d - i\<rparr>] else [])"
      using no_rows_of_fresh[OF rb maxid j(1)] j
      by (simp add: c' inserted_bands_filter)
    have hb: "has_table c' ''band''" using band by (simp add: c' has_table_def)
    show ?thesis
      using gp by (simp add: view_rows_single[OF p1 m1 t1 x1] b1 hb left_join_def new_row_def)
  qed
  have "property_view c' =
          concat (map (view_rows c') (data (working c))) @ concat (map (view_rows c') ?nd)"
    by (simp add: property_view_def c')
  also have "concat (map (view_rows c') (data (working c))) = property_view c"
    using old by (simp add: property_view_def cong: map_cong)
  also have "concat (map (view_rows c') ?nd) = concat (map (\<lambda>d. [new_row i member prop d]) ?nd)"
    using new by (simp cong: map_cong)
  finally show ?thesis by simp
qed

lemma new_rows_sorted:
  "i0 \<le> i \<Longrightarrow>
   sorted (map v_band_id (map (new_row i0 member prop) (inserted_data i u m pid vs)))"
proof (induction vs arbitrary: i u)
  case Nil
  then show ?case by simp
next
  case (Cons v vs)
  have tail: "sorted (map v_band_id (map (new_row i0 member prop) (inserted_data (i + 1) (u + 1) m pid vs)))"
    using Cons.prems by (intro Cons.IH) simp
  have head: "v_band_id (new_row i0 member prop
                 \<lparr>d_data_id = i + 1, d_uid = Some (u + 1), d_membership_id = m,
                   d_property_id = pid, d_value = v\<rparr>)
              \<le> v_band_id (new_row i0 member prop d)"
    if "d \<in> set (inserted_data (i + 1) (u + 1) m pid vs)" for d
  proof -
    from inserted_data_ids[OF that] have "i + 1 < d_data_id d" by simp
    then show ?thesis using Cons.prems by (simp add: new_row_def)
  qed
  show ?case using tail head by (simp add: o_def)
qed

lemma select_after_insert:
  assumes wf: "consistent (working c)"
      and mem: "member \<in> set (memberships (working c))"
      and prp: "prop \<in> set (properties (working c))"
      and band: "has_table c ''band''"
      and uid: "has_data_uid c"
      and maxid: "\<forall>d \<in> set (data (working c)). d_data_id d \<le> i"
      and c': "c' = c\<lparr>working := (mark_property prop (working c))
                  \<lparr>data := data (working c) @ inserted_data i u (m_membership_id member) (p_property_id prop) ms,
                   bands := bands (working c) @ inserted_bands i 0 ms\<rparr>\<rparr>"
      and old: "select_property c (m_child_object_id member) (p_name prop) (m_parent_object_id member) = []"
  shows "select_property c' (m_child_object_id member) (p_name prop) (m_parent_object_id member) =
           map (new_row i member prop)
             (inserted_data i u (m_membership_id member) (p_property_id prop) ms)"
proof -
  let ?nd = "inserted_data i u (m_membership_id member) (p_property_id prop) ms"
  let ?P = "\<lambda>r. (v_child_object_id r = m_child_object_id member \<and> v_name r = p_name prop) \<and>
                 (v_parent_object_id r = m_parent_object_id member \<or>
                  v_tag_object_id r = Some (m_parent_object_id member))"
  from old have "set (order_by_band c (filter ?P (property_view c))) = {}"
    by (simp add: select_property_def)
  then have old0: "filter ?P (property_view c) = []"
    by (simp only: set_order_by_band set_empty)
  have new0: "filter ?P (map (new_row i member prop) ?nd) = map (new_row i member prop) ?nd"
    by (simp add: filter_map o_def new_row_def)
  have uid2: "has_data_uid c'" using uid by (simp add: c')
  have srt: "sorted (map v_band_id (map (new_row i member prop) ?nd))"
    by (rule new_rows_sorted) simp
  show ?thesis
    using old0 new0 uid2 srt
    by (simp add: select_property_def view_after_insert[OF wf mem prp band maxid c']
          order_by_band_def sort_key_id_if_sorted)
qed

lemma get_after_insert:
  assumes sel: "select_property c' (o_object_id self) name (o_object_id tag_obj) =
           map (new_row i member prop) (inserted_data i u m pid ms)"
      and dat: "has_table c' ''data''"
      and res: "resolve_tag c' tag = Inr tag_obj"
      and vd: "valdict_of (p_input_mask prop) = Inr vd"
  shows "get_property c' self name tag =
           Inr (case map (valmap vd) ms of
                  [] \<Rightarrow> None | [v] \<Rightarrow> Some (Single v) | vs \<Rightarrow> Some (Multi vs))"
proof -
  have vals: "map (\<lambda>r. valmap vd (v_value r)) (map (new_row i member prop) (inserted_data i u m pid ms))
               = map (valmap vd) ms"
  proof -
    have "map (\<lambda>r. valmap vd (v_value r)) (map (new_row i member prop) (inserted_data i u m pid ms))
            = map (valmap vd) (map d_value (inserted_data i u m pid ms))"
      by (simp add: o_def new_row_def)
    then show ?thesis by (simp add: inserted_data_values)
  qed
  show ?thesis
  proof (cases ms)
    case Nil
    with sel dat res show ?thesis by (simp add: get_property_def and_then_def)
  next
    case (Cons a list)
    then have first: "(case map (new_row i member prop) (inserted_data i u m pid ms) of
              [] \<Rightarrow> Inr [] | r # _ \<Rightarrow> valdict_of (v_input_mask r)) = Inr vd"
      using vd by (simp add: new_row_def)
    have "get_property c' self name tag =
            (case map (valmap vd) ms of
               [] \<Rightarrow> Inr None | [v] \<Rightarrow> Inr (Some (Single v))
             | _ \<Rightarrow> Inr (Some (Multi (map (valmap vd) ms))))"
      using dat res
      by (simp add: get_property_def and_then_def sel first vals Let_def del: map_map
            cong: list.case_cong)
    then show ?thesis
      by (cases "map (valmap vd) ms" rule: remdups_adj.cases) simp_all
  qed
qed

lemma mark_row_fields:
  "p_property_id (mark_row val prop p) = p_property_id p"
  "p_name (mark_row val prop p) = p_name p"
  "p_input_mask (mark_row val prop p) = p_input_mask p"
  "p_collection_id (mark_row val prop p) = p_collection_id p"
  by (simp_all add: mark_row_def Let_def)

lemma properties_mark_property:
  "properties (mark_property prop d) = map (mark_row ''true'' prop) (properties d)"
  by (auto simp: mark_property_def set_is_dynamic_def set_is_enabled_def Let_def
        mark_row_def[abs_def])

lemma dict_has_mark_valid: "dict_has k (mark_valid val prop vp) = dict_has k vp"
  by (induction vp) (auto simp: dict_has_def mark_valid_def)

lemma dict_set_mark_props:
  "dict_set k (mark_row val prop v) (mark_props val prop pv) = mark_props val prop (dict_set k v pv)"
  by (induction pv) (auto simp: mark_props_def)

lemma dict_set_mark_valid:
  "dict_set k (mark_props val prop pv) (mark_valid val prop vp) = mark_valid val prop (dict_set k pv vp)"
  by (induction vp) (auto simp: mark_valid_def)

lemma map_of_mark_valid:
  "map_of (mark_valid val prop vp) k = map_option (mark_props val prop) (map_of vp k)"
  by (induction vp) (auto simp: mark_valid_def)

lemma mark_props_Nil: "mark_props val prop [] = []"
  by (simp add: mark_props_def)

lemma add_properties_mark:
  "add_properties cname pn (map (mark_row val prop) rows) (mark_valid val prop vp) =
   map_sum id (mark_valid val prop) (add_properties cname pn rows vp)"
proof (induction rows arbitrary: vp)
  case Nil
  then show ?case by simp
next
  case (Cons r rows)
  define vp1 where "vp1 = (if dict_has pn vp then vp else dict_set pn [] vp)"
  have e1: "(if dict_has pn (mark_valid val prop vp) then mark_valid val prop vp
             else dict_set pn [] (mark_valid val prop vp)) = mark_valid val prop vp1"
    using dict_set_mark_valid[of pn val "prop" "[]" vp]
    by (simp add: dict_has_mark_valid vp1_def mark_props_Nil)
  have lhs: "add_properties cname pn (map (mark_row val prop) (r # rows)) (mark_valid val prop vp) =
     (if dict_has (str (p_property_id r)) vp1 then Inl (DuplicateProperty (p_name r) cname)
      else (case map_of vp1 pn of
              None \<Rightarrow> Inl KeyError
            | Some props \<Rightarrow>
                add_properties cname pn (map (mark_row val prop) rows)
                  (mark_valid val prop (dict_set pn (dict_set (p_property_id r) r props) vp1))))"
    apply (simp only: list.map add_properties.simps Let_def e1)
    apply (simp add: dict_has_mark_valid map_of_mark_valid mark_row_fields
          dict_set_mark_props dict_set_mark_valid split: option.splits)
    done
  have rhs: "add_properties cname pn (r # rows) vp =
     (if dict_has (str (p_property_id r)) vp1 then Inl (DuplicateProperty (p_name r) cname)
      else (case map_of vp1 pn of
              None \<Rightarrow> Inl KeyError
            | Some props \<Rightarrow>
                add_properties cname pn rows
                  (dict_set pn (dict_set (p_property_id r) r props) vp1)))"
    by (simp only: add_properties.simps Let_def vp1_def[symmetric])
  show ?case
    by (simp only: lhs rhs Cons.IH) (simp add: id_def split: option.splits)
qed

lemma collect_properties_mark:
  assumes "classes d' = classes d" and "properties d' = map (mark_row val prop) (properties d)"
  shows "collect_properties d' cname colls (mark_valid val prop vp) =
         map_sum id (mark_valid val prop) (collect_properties d cname colls vp)"
proof (induction colls arbitrary: vp)
  case Nil
  then show ?case by simp
next
  case (Cons coll colls)
  have f: "filter (\<lambda>r. p_collection_id r = col_collection_id coll) (properties d') =
           map (mark_row val prop) (filter (\<lambda>r. p_collection_id r = col_collection_id coll) (properties d))"
    by (simp add: assms(2) filter_map o_def mark_row_fields)
  show ?case
  proof (cases "fetchone (filter (\<lambda>r. c_class_id r = col_parent_class_id coll) (classes d))")
    case None
    then show ?thesis by (simp add: assms(1))
  next
    case (Some parent)
    show ?thesis
    proof (cases "add_properties cname (c_name parent)
               (filter (\<lambda>r. p_collection_id r = col_collection_id coll) (properties d)) vp")
      case (Inl e)
      then show ?thesis
        using Some by (simp add: assms(1) f add_properties_mark and_then_def)
    next
      case (Inr vp2)
      then show ?thesis
        using Some Cons.IH[of vp2] by (simp add: assms(1) f add_properties_mark and_then_def)
    qed
  qed
qed

lemma names_of_parent_mark:
  "names_of_parent cname p (mark_props val prop pv) bn = names_of_parent cname p pv bn"
  by (induction pv arbitrary: bn)
     (auto simp: mark_props_def mark_row_fields split: option.splits)

lemma properties_by_name_mark:
  "properties_by_name cname (mark_valid val prop vp) bn = properties_by_name cname vp bn"
proof (induction vp arbitrary: bn)
  case Nil
  then show ?case by (simp add: mark_valid_def)
next
  case (Cons a vp)
  obtain p pv where a: "a = (p, pv)" by (cases a)
  have "mark_valid val prop (a # vp) = (p, mark_props val prop pv) # mark_valid val prop vp"
    by (simp add: mark_valid_def a)
  then show ?case
    using Cons.IH by (simp add: a names_of_parent_mark and_then_def split: sum.splits)
qed

lemma ClassDict_mark:
  assumes "marked val prop c c'"
  shows "ClassDict c' cm =
           map_sum id (\<lambda>cd. cd\<lparr>valid_properties := mark_valid val prop (valid_properties cd)\<rparr>)
             (ClassDict c cm)"
proof -
  from assms have cl: "classes (working c') = classes (working c)"
    and co: "collections (working c') = collections (working c)"
    and pr: "properties (working c') = map (mark_row val prop) (properties (working c))"
    by (simp_all add: marked_def)
  have "collect_properties (working c') (c_name cm)
          (filter (\<lambda>r. col_child_class_id r = c_class_id cm) (collections (working c'))) [] =
        map_sum id (mark_valid val prop)
          (collect_properties (working c) (c_name cm)
             (filter (\<lambda>r. col_child_class_id r = c_class_id cm) (collections (working c))) [])"
    using collect_properties_mark[OF cl pr, of "c_name cm" _ "[]"]
    by (simp add: co mark_valid_def)
  then show ?thesis
    by (cases "collect_properties (working c) (c_name cm)
          (filter (\<lambda>r. col_child_class_id r = c_class_id cm) (collections (working c))) []")
       (auto simp: ClassDict_def and_then_def properties_by_name_mark split: sum.splits)
qed

lemma COAD_getitem_mark:
  assumes "marked val prop c c'"
  shows "COAD_getitem c' key =
           map_sum id (\<lambda>cd. cd\<lparr>valid_properties := mark_valid val prop (valid_properties cd)\<rparr>)
             (COAD_getitem c key)"
  using assms ClassDict_mark[OF assms]
  by (simp add: COAD_getitem_def marked_def split: option.splits)

lemma get_class_mark:
  assumes "marked val prop c c'"
  shows "get_class c' ob =
           map_sum id (\<lambda>cd. cd\<lparr>valid_properties := mark_valid val prop (valid_properties cd)\<rparr>)
             (get_class c ob)"
  using assms COAD_getitem_mark[OF assms]
  by (simp add: get_class_def get_by_class_id_def marked_def split: option.splits)

lemma ObjectDict_mark:
  assumes "marked val prop c c'"
  shows "ObjectDict c' ob = ObjectDict c ob"
  using get_class_mark[OF assms, of ob]
  by (cases "get_class c ob") (simp_all add: ObjectDict_def and_then_def)

lemma store_mark:
  assumes "marked val prop c c'"
  shows "store c' ob = store c ob"
  using assms by (simp add: store_def marked_def has_table_def)

lemma get_by_hierarchy_mark:
  assumes "marked val prop c c'"
  shows "and_then (get_by_hierarchy c' ident) as_object = and_then (get_by_hierarchy c ident) as_object"
proof -
  have cg: "ClassDict_getitem c' (cd\<lparr>valid_properties := vp\<rparr>) key = ClassDict_getitem c cd key"
    for cd vp key
    using assms ObjectDict_mark[OF assms]
    by (simp add: ClassDict_getitem_def marked_def split: option.splits)
  show ?thesis
  proof (cases "py_split CHR ''.'' ident")
    case Nil
    then show ?thesis by (simp add: get_by_hierarchy_def)
  next
    case (Cons h0 rest)
    show ?thesis
    proof (cases "COAD_getitem c h0")
      case (Inl e)
      then show ?thesis
        using Cons COAD_getitem_mark[OF assms, of h0]
        by (cases rest) (simp_all add: get_by_hierarchy_def and_then_def)
    next
      case (Inr cd)
      then show ?thesis
        using Cons COAD_getitem_mark[OF assms, of h0] cg store_mark[OF assms]
        by (cases rest)
           (auto simp: get_by_hierarchy_def and_then_def as_object_def
                 split: sum.splits list.splits option.splits)
    qed
  qed
qed

lemma resolve_tag_mark:
  assumes "marked val prop c c'"
  shows "resolve_tag c' tag = resolve_tag c tag"
  using get_by_hierarchy_mark[OF assms] by (cases tag) (simp_all add: resolve_tag_def)

lemma dict_set_mem: "x \<in> set (dict_set k v kvs) \<Longrightarrow> x = (k, v) \<or> x \<in> set kvs"
  by (induction kvs) (auto split: if_splits)

lemma add_properties_rows:
  assumes "add_properties cname pn rows vp = Inr vp'"
      and "set rows \<subseteq> R"
      and "\<And>p pv k v. (p, pv) \<in> set vp \<Longrightarrow> (k, v) \<in> set pv \<Longrightarrow> k = p_property_id v \<and> v \<in> R"
      and "(p, pv) \<in> set vp'" and "(k, v) \<in> set pv"
  shows "k = p_property_id v \<and> v \<in> R"
  using assms
proof (induction rows arbitrary: vp)
  case Nil
  then show ?case by auto
next
  case (Cons r rows)
  define vp1 where "vp1 = (if dict_has pn vp then vp else dict_set pn [] vp)"
  have i1: "k = p_property_id v \<and> v \<in> R" if "(p, pv) \<in> set vp1" "(k, v) \<in> set pv" for p pv k v
  proof (cases "dict_has pn vp")
    case True
    with that Cons.prems(3) show ?thesis by (simp add: vp1_def)
  next
    case False
    with that(1) have "(p, pv) = (pn, []) \<or> (p, pv) \<in> set vp"
      by (auto simp: vp1_def dest: dict_set_mem)
    with that(2) Cons.prems(3) show ?thesis by auto
  qed
  from Cons.prems(1) obtain props where
    mo: "map_of vp1 pn = Some props" and
    rec: "add_properties cname pn rows (dict_set pn (dict_set (p_property_id r) r props) vp1) = Inr vp'"
    by (auto simp: Let_def vp1_def[symmetric] split: if_splits option.splits)
  from mo have pin: "(pn, props) \<in> set vp1" by (rule map_of_SomeD)
  have rR: "r \<in> R" using Cons.prems(2) by simp
  have i3: "k = p_property_id v \<and> v \<in> R"
    if a: "(p, pv) \<in> set (dict_set pn (dict_set (p_property_id r) r props) vp1)"
      and b: "(k, v) \<in> set pv" for p pv k v
  proof -
    from dict_set_mem[OF a] consider
      "pv = dict_set (p_property_id r) r props" | "(p, pv) \<in> set vp1" by auto
    then show ?thesis
    proof cases
      case 1
      with b dict_set_mem[of "(k, v)" "p_property_id r" r props]
      have "(k, v) = (p_property_id r, r) \<or> (k, v) \<in> set props" by simp
      with rR i1[OF pin] show ?thesis by auto
    next
      case 2
      with b i1 show ?thesis by blast
    qed
  qed
  have sub: "set rows \<subseteq> R" using Cons.prems(2) by simp
  show ?case
    by (rule Cons.IH[OF rec sub i3 Cons.prems(4,5)])
qed

lemma collect_properties_rows:
  assumes "collect_properties d cname colls vp = Inr vp'"
      and "\<And>p pv k v. (p, pv) \<in> set vp \<Longrightarrow> (k, v) \<in> set pv \<Longrightarrow>
             k = p_property_id v \<and> v \<in> set (properties d)"
      and "(p, pv) \<in> set vp'" and "(k, v) \<in> set pv"
  shows "k = p_property_id v \<and> v \<in> set (properties d)"
  using assms
proof (induction colls arbitrary: vp)
  case Nil
  then show ?case by auto
next
  case (Cons coll colls)
  from Cons.prems(1) obtain parent :: class_row and vp2 where
    a: "add_properties cname (c_name parent)
          (filter (\<lambda>r. p_collection_id r = col_collection_id coll) (properties d)) vp = Inr vp2"
    and b: "collect_properties d cname colls vp2 = Inr vp'"
    by (auto simp: and_then_def split: option.splits sum.splits)
  have sub: "set (filter (\<lambda>r. p_collection_id r = col_collection_id coll) (properties d))
               \<subseteq> set (properties d)" by auto
  have i2: "k = p_property_id v \<and> v \<in> set (properties d)"
    if "(p, pv) \<in> set vp2" "(k, v) \<in> set pv" for p pv k v
    by (rule add_properties_rows[OF a sub Cons.prems(2) that])
  show ?case by (rule Cons.IH[OF b i2 Cons.prems(3,4)])
qed

lemma names_of_parent_rows:
  assumes "names_of_parent cname p pv bn = Inr bn'"
      and "\<And>k v. (k, v) \<in> set pv \<Longrightarrow> k = p_property_id v \<and> v \<in> R"
      and "\<And>q names n k. (q, names) \<in> set bn \<Longrightarrow> (n, k) \<in> set names \<Longrightarrow>
             \<exists>v \<in> R. k = p_property_id v \<and> n = p_name v"
      and "(q, names) \<in> set bn'" and "(n, k) \<in> set names"
  shows "\<exists>v \<in> R. k = p_property_id v \<and> n = p_name v"
  using assms
proof (induction pv arbitrary: bn)
  case Nil
  then show ?case by auto
next
  case (Cons kv pv)
  obtain k0 v0 where kv: "kv = (k0, v0)" by (cases kv)
  from Cons.prems(1) obtain names0 where
    mo: "map_of bn p = Some names0" and
    rec: "names_of_parent cname p pv (dict_set p (dict_set (p_name v0) k0 names0) bn) = Inr bn'"
    by (auto simp: kv split: if_splits option.splits)
  from mo have pin: "(p, names0) \<in> set bn" by (rule map_of_SomeD)
  from Cons.prems(2)[of k0 v0] have kR: "k0 = p_property_id v0" "v0 \<in> R" by (auto simp: kv)
  have j3: "\<exists>v \<in> R. k = p_property_id v \<and> n = p_name v"
    if a: "(q, names) \<in> set (dict_set p (dict_set (p_name v0) k0 names0) bn)"
      and b: "(n, k) \<in> set names" for q names n k
  proof -
    from dict_set_mem[OF a] consider
      "names = dict_set (p_name v0) k0 names0" | "(q, names) \<in> set bn" by auto
    then show ?thesis
    proof cases
      case 1
      with b dict_set_mem[of "(n, k)" "p_name v0" k0 names0]
      have "(n, k) = (p_name v0, k0) \<or> (n, k) \<in> set names0" by simp
      with kR Cons.prems(3)[OF pin] show ?thesis by auto
    next
      case 2
      with b Cons.prems(3) show ?thesis by blast
    qed
  qed
  have ip: "k = p_property_id v \<and> v \<in> R" if "(k, v) \<in> set pv" for k v
    using Cons.prems(2)[of k v] that by simp
  show ?case by (rule Cons.IH[OF rec ip j3 Cons.prems(4,5)])
qed

lemma properties_by_name_rows:
  assumes "properties_by_name cname vp bn = Inr bn'"
      and "\<And>p pv k v. (p, pv) \<in> set vp \<Longrightarrow> (k, v) \<in> set pv \<Longrightarrow> k = p_property_id v \<and> v \<in> R"
      and "\<And>q names n k. (q, names) \<in> set bn \<Longrightarrow> (n, k) \<in> set names \<Longrightarrow>
             \<exists>v \<in> R. k = p_property_id v \<and> n = p_name v"
      and "(q, names) \<in> set bn'" and "(n, k) \<in> set names"
  shows "\<exists>v \<in> R. k = p_property_id v \<and> n = p_name v"
  using assms
proof (induction vp arbitrary: bn)
  case Nil
  then show ?case by auto
next
  case (Cons a vp)
  obtain p pv where a: "a = (p, pv)" by (cases a)
  from Cons.prems(1) obtain bn2 where
    nn: "names_of_parent cname p pv (dict_set p [] bn) = Inr bn2"
    and rec: "properties_by_name cname vp bn2 = Inr bn'"
    by (auto simp: a and_then_def split: sum.splits)
  have j0: "\<exists>v \<in> R. k = p_property_id v \<and> n = p_name v"
    if x: "(q, names) \<in> set (dict_set p [] bn)" and y: "(n, k) \<in> set names" for q names n k
  proof -
    from dict_set_mem[OF x] y have "(q, names) \<in> set bn" by auto
    with y Cons.prems(3) show ?thesis by blast
  qed
  have ipv: "k = p_property_id v \<and> v \<in> R" if "(k, v) \<in> set pv" for k v
    using Cons.prems(2)[of p pv k v] that by (simp add: a)
  have j2: "\<exists>v \<in> R. k = p_property_id v \<and> n = p_name v"
    if "(q, names) \<in> set bn2" "(n, k) \<in> set names" for q names n k
    by (rule names_of_parent_rows[OF nn ipv j0 that])
  have i2: "k = p_property_id v \<and> v \<in> R" if "(p, pv) \<in> set vp" "(k, v) \<in> set pv" for p pv k v
    using Cons.prems(2)[of p pv k v] that by simp
  show ?case by (rule Cons.IH[OF rec i2 j2 Cons.prems(4,5)])
qed

lemma ClassDict_names:
  assumes "ClassDict c cm = Inr cd"
      and "map_of (valid_properties_by_name cd) p = Some names"
      and "map_of names name = Some pid"
  shows "\<exists>v \<in> set (properties (working c)). pid = p_property_id v \<and> name = p_name v"
proof -
  from assms(1) obtain vp where
    cp: "collect_properties (working c) (c_name cm)
          (filter (\<lambda>r. col_child_class_id r = c_class_id cm) (collections (working c))) [] = Inr vp"
    and bn: "properties_by_name (c_name cm) vp [] = Inr (valid_properties_by_name cd)"
    by (auto simp: ClassDict_def and_then_def split: sum.splits)
  have i: "k = p_property_id v \<and> v \<in> set (properties (working c))"
    if "(p, pv) \<in> set vp" "(k, v) \<in> set pv" for p pv k v
    by (rule collect_properties_rows[OF cp _ that]) simp
  from assms(2) have a: "(p, names) \<in> set (valid_properties_by_name cd)" by (rule map_of_SomeD)
  from assms(3) have b: "(name, pid) \<in> set names" by (rule map_of_SomeD)
  show ?thesis
  proof (rule properties_by_name_rows[OF bn i _ a b])
    fix q :: string and names :: "(string \<times> int) list" and n k
    assume "(q, names) \<in> set []"
    then show "\<exists>v \<in> set (properties (working c)). k = p_property_id v \<and> n = p_name v"
      by simp
  qed
qed

lemma get_class_names:
  assumes "get_class c ob = Inr cd"
      and "map_of (valid_properties_by_name cd) p = Some names"
      and "map_of names name = Some pid"
  shows "\<exists>v \<in> set (properties (working c)). pid = p_property_id v \<and> name = p_name v"
proof -
  from assms(1) obtain cm where "ClassDict c cm = Inr cd"
    by (auto simp: get_class_def get_by_class_id_def COAD_getitem_def split: option.splits)
  then show ?thesis by (rule ClassDict_names[OF _ assms(2,3)])
qed

lemma with_get_class_object:
  "and_then r with_get_class = Inr ob \<Longrightarrow> and_then r as_object = Inr ob"
  by (auto simp: and_then_def with_get_class_def as_object_def split: sum.splits hier.splits)

lemma native_case_facts:
  assumes nc: "native_case c self name tag = Some (tag_obj, member, prop, all_data)"
  shows "and_then (get_by_hierarchy c tag) as_object = Inr tag_obj"
    and "member \<in> set (memberships (working c))"
    and "m_child_object_id member = o_object_id self"
    and "m_parent_object_id member = o_object_id tag_obj"
    and "prop \<in> set (properties (working c))"
    and "native_data c (m_membership_id member) (p_property_id prop) = Inr all_data"
    and "distinct (map p_property_id (properties (working c))) \<Longrightarrow> p_name prop = name"
proof -
  from nc obtain tag_cls :: classdict and cls :: classdict and names pid where
    t0: "and_then (get_by_hierarchy c tag) with_get_class = Inr tag_obj"
    and gc: "get_class c self = Inr cls"
    and mn: "map_of (valid_properties_by_name cls) (c_name (meta tag_cls)) = Some names"
    and mp: "map_of names name = Some pid"
    and fm: "fetchone (filter (\<lambda>m. m_child_object_id m = o_object_id self \<and>
                                   m_parent_object_id m = o_object_id tag_obj)
                        (memberships (working c))) = Some member"
    and nd: "native_data c (m_membership_id member) pid = Inr all_data"
    and fp: "fetchone (filter (\<lambda>p. p_property_id p = pid) (properties (working c))) = Some prop"
    by (auto simp: native_case_def split: sum.splits option.splits)
  show "and_then (get_by_hierarchy c tag) as_object = Inr tag_obj"
    by (rule with_get_class_object[OF t0])
  from fetchone_filter_Some[OF fm]
  show "member \<in> set (memberships (working c))"
    "m_child_object_id member = o_object_id self"
    "m_parent_object_id member = o_object_id tag_obj" by auto
  from fetchone_filter_Some[OF fp] have pp: "p_property_id prop = pid"
    and pin: "prop \<in> set (properties (working c))" by auto
  show "prop \<in> set (properties (working c))" by (rule pin)
  show "native_data c (m_membership_id member) (p_property_id prop) = Inr all_data"
    using nd pp by simp
  show "p_name prop = name" if d: "distinct (map p_property_id (properties (working c)))"
  proof -
    from get_class_names[OF gc mn mp] obtain v where
      v: "v \<in> set (properties (working c))" "pid = p_property_id v" "name = p_name v" by blast
    from d have "inj_on p_property_id (set (properties (working c)))" by (rule distinct_map[THEN iffD1, THEN conjunct2])
    with v pin pp have "v = prop" by (auto dest: inj_onD)
    with v show ?thesis by simp
  qed
qed

lemma mask_values_None: "mask_values vs None = Inr vs"
  by (induction vs) (simp_all add: get_mask_value_def and_then_def)

lemma get_property_None:
  assumes "has_table c ''data''" and "resolve_tag c tag = Inr tag_obj"
      and "get_property c self name tag = Inr None"
  shows "select_property c (o_object_id self) name (o_object_id tag_obj) = []"
proof (cases "select_property c (o_object_id self) name (o_object_id tag_obj)")
  case Nil
  then show ?thesis .
next
  case (Cons r rest)
  with assms show ?thesis
    by (cases rest; cases "valdict_of (v_input_mask r)")
       (simp_all add: get_property_def and_then_def Let_def)
qed

lemma mark_property_schema:
  "classes (mark_property prop d) = classes d" "objects (mark_property prop d) = objects d"
  "collections (mark_property prop d) = collections d"
  "attributes (mark_property prop d) = attributes d"
  "attribute_data (mark_property prop d) = attribute_data d"
  by (simp_all add: mark_property_def set_is_dynamic_def set_is_enabled_def Let_def)

lemma marked_insert:
  "marked ''true'' prop c (c\<lparr>working := (mark_property prop (working c))\<lparr>data := X, bands := Y\<rparr>\<rparr>)"
  by (simp add: marked_def mark_property_schema properties_mark_property)

lemma last_ids_facts:
  assumes "last_ids c = Inr (Some i, Some u)"
  shows "has_table c ''data''" and "has_data_uid c"
    and "\<forall>d \<in> set (data (working c)). d_data_id d \<le> i"
proof -
  from assms show h: "has_table c ''data''" and u: "has_data_uid c"
    by (auto simp: last_ids_def split: if_splits)
  from assms h u have "sql_max (map d_data_id (data (working c))) = Some i"
    by (simp add: last_ids_def)
  then show "\<forall>d \<in> set (data (working c)). d_data_id d \<le> i"
    by (auto intro!: sql_max_ge[where xs = "map d_data_id (data (working c))"])
qed

lemma insert_then_get:
  assumes nc: "native_case c self name tag = Some (tag_obj, member, prop, [])"
      and wf: "consistent (working c)"
      and ids: "last_ids c = Inr (Some i, Some u)"
      and unset: "get_property c self name (TagName tag) = Inr None"
      and mv: "mask_values (as_list val) (p_input_mask prop) = Inr ms"
      and fits: "i + int (length ms) \<le> max_int64"
      and vd: "valdict_of (p_input_mask prop) = Inr vd"
      and c': "c' = c\<lparr>working := (mark_property prop (working c))
                  \<lparr>data := data (working c) @
                     inserted_data i u (m_membership_id member) (p_property_id prop) (map sql_text ms),
                   bands := bands (working c) @ inserted_bands i 0 (map sql_text ms)\<rparr>\<rparr>"
  shows "set_property c self name val tag dt = (Inr (), c')"
    and "get_property c' self name (TagName tag) =
           Inr (case map (valmap vd) (map sql_text ms) of
                  [] \<Rightarrow> None | [v] \<Rightarrow> Some (Single v) | vs \<Rightarrow> Some (Multi vs))"
proof -
  note f = native_case_facts[OF nc]
  note l = last_ids_facts[OF ids]
  from wf have dp: "distinct (map p_property_id (properties (working c)))"
    by (simp add: consistent_def)
  have nm: "p_name prop = name" by (rule f(7)[OF dp])
  have band: "has_table c ''band''"
    using f(6) l(1,2) by (auto simp: native_data_def split: if_splits)
  have res: "resolve_tag c (TagName tag) = Inr tag_obj"
    using f(1) by (simp add: resolve_tag_def)
  have old: "select_property c (m_child_object_id member) (p_name prop) (m_parent_object_id member) = []"
    using get_property_None[OF l(1) res unset] by (simp add: f(3,4) nm)
  show "set_property c self name val tag dt = (Inr (), c')"
    by (simp add: set_property_native[OF nc] native_write_insert[OF ids band mv fits] c')
  have mk: "marked ''true'' prop c c'" unfolding c' by (rule marked_insert)
  have res': "resolve_tag c' (TagName tag) = Inr tag_obj"
    using resolve_tag_mark[OF mk] res by simp
  have dat': "has_table c' ''data''" using l(1) by (simp add: c' has_table_def)
  have sel: "select_property c' (o_object_id self) name (o_object_id tag_obj) =
           map (new_row i member prop)
             (inserted_data i u (m_membership_id member) (p_property_id prop) (map sql_text ms))"
    using select_after_insert[OF wf f(2) f(5) band l(2) l(3) c' old]
    by (simp add: f(3,4) nm)
  show "get_property c' self name (TagName tag) =
           Inr (case map (valmap vd) (map sql_text ms) of
                  [] \<Rightarrow> None | [v] \<Rightarrow> Some (Single v) | vs \<Rightarrow> Some (Multi vs))"
    by (rule get_after_insert[OF sel dat' res' vd])
qed

text \<open>
  C1, as stated, fails. On the sample, \<^verbatim>\<open>Max Capacity\<close> of \<^verbatim>\<open>G1\<close> is a native property without
  data. Set to the list of integers 10, 20, 30 it reads back as the list of the texts
  \<^verbatim>\<open>'10'\<close>, \<^verbatim>\<open>'20'\<close>, \<^verbatim>\<open>'30'\<close>, which are not the integers: the column \<^verbatim>\<open>value\<close> is text. When
  the largest \<^verbatim>\<open>data_id\<close> of the store is \<open>2\<^sup>6\<^sup>3 - 1\<close> the next identifier does not fit a SQLite
  integer and the call raises. When the \<^verbatim>\<open>data\<close> table has no row at all, \<^verbatim>\<open>MAX(data_id)\<close>
  is \<^verbatim>\<open>NULL\<close> and the call raises at \<^verbatim>\<open>last_data_id += 1\<close>. In both the property reads back as
  unset. For \<^verbatim>\<open>Commit\<close>, which has an input mask, the integers are refused.
\<close>

theorem set_list_counterexample:
  "get_property sample g1 ''Max Capacity'' (TagName ''System.System'') = Inr None \<and>
   get_property
     (snd (set_property sample g1 ''Max Capacity'' (Multi [PInt 10, PInt 20, PInt 30])
             ''System.System'' None))
     g1 ''Max Capacity'' (TagName ''System.System'') = Inr (Some (Multi [''10'', ''20'', ''30''])) \<and>
   map PStr [''10'', ''20'', ''30''] \<noteq> [PInt 10, PInt 20, PInt 30] \<and>
   get_property sample_last g1 ''Max Capacity'' (TagName ''System.System'') = Inr None \<and>
   fst (set_property sample_last g1 ''Max Capacity'' (Multi [PInt 10, PInt 20, PInt 30])
          ''System.System'' None) = Inl OverflowError \<and>
   get_property
     (snd (set_property sample_last g1 ''Max Capacity'' (Multi [PInt 10, PInt 20, PInt 30])
             ''System.System'' None))
     g1 ''Max Capacity'' (TagName ''System.System'') = Inr None \<and>
   get_property sample_empty g1 ''Max Capacity'' (TagName ''System.System'') = Inr None \<and>
   fst (set_property sample_empty g1 ''Max Capacity'' (Multi [PInt 10, PInt 20, PInt 30])
          ''System.System'' None) = Inl TypeError \<and>
   get_property
     (snd (set_property sample_empty g1 ''Max Capacity'' (Multi [PInt 10, PInt 20, PInt 30])
             ''System.System'' None))
     g1 ''Max Capacity'' (TagName ''System.System'') = Inr None \<and>
   get_property sample g1 ''Commit'' (TagName ''System.System'') = Inr None \<and>
   set_property sample g1 ''Commit'' (Multi [PInt 10, PInt 20, PInt 30]) ''System.System'' None =
     (Inl (NotInMask (PInt 10) [''Off'', ''On'']), sample)"
  by code_simp

text \<open>
  C1, amended. Take an object and a property that \<^verbatim>\<open>set_property\<close> treats as native
  (\<open>native_case\<close>) and that has no data: none for the membership and property, and none
  that \<^verbatim>\<open>get_property\<close> would read for this object, name and owner. The store is consistent,
  the \<^verbatim>\<open>data\<close> table has a \<^verbatim>\<open>uid\<close> column and at least one row with a \<^verbatim>\<open>uid\<close> (the code
  takes the next identifiers from \<^verbatim>\<open>MAX(data_id)\<close> and \<^verbatim>\<open>MAX(uid)\<close>), the three next
  identifiers fit 64 bits, and the property has no input mask. Then setting the property to
  a list of three values \<open>[x, y, z]\<close>, integers or texts, succeeds, and reading it back with
  the same name and tag returns the list of their texts in that order: \<^verbatim>\<open>['10', '20', '30']\<close>
  for \<^verbatim>\<open>[10, 20, 30]\<close>. Three data rows are appended; the first has no band row (band 1), the
  second and third get band rows 2 and 3.
\<close>

theorem set_list_then_get:
  assumes nc: "native_case c self name tag = Some (tag_obj, member, prop, [])"
      and wf: "consistent (working c)"
      and ids: "last_ids c = Inr (Some i, Some u)"
      and fits: "i + 3 \<le> max_int64" "u + 3 \<le> max_int64"
      and nomask: "p_input_mask prop = None"
      and unset: "get_property c self name (TagName tag) = Inr None"
  shows "fst (set_property c self name (Multi [x, y, z]) tag dt) = Inr () \<and>
         get_property (snd (set_property c self name (Multi [x, y, z]) tag dt)) self name (TagName tag)
           = Inr (Some (Multi [sql_text x, sql_text y, sql_text z])) \<and>
         data (working (snd (set_property c self name (Multi [x, y, z]) tag dt))) =
           data (working c) @
             [\<lparr>d_data_id = i + 1, d_uid = Some (u + 1), d_membership_id = m_membership_id member,
               d_property_id = p_property_id prop, d_value = sql_text x\<rparr>,
              \<lparr>d_data_id = i + 2, d_uid = Some (u + 2), d_membership_id = m_membership_id member,
               d_property_id = p_property_id prop, d_value = sql_text y\<rparr>,
              \<lparr>d_data_id = i + 3, d_uid = Some (u + 3), d_membership_id = m_membership_id member,
               d_property_id = p_property_id prop, d_value = sql_text z\<rparr>] \<and>
         bands (working (snd (set_property c self name (Multi [x, y, z]) tag dt))) =
           bands (working c) @
             [\<lparr>b_data_id = i + 2, b_band_id = 2\<rparr>, \<lparr>b_data_id = i + 3, b_band_id = 3\<rparr>]"
proof -
  define c' where "c' = c\<lparr>working := (mark_property prop (working c))
      \<lparr>data := data (working c) @
          inserted_data i u (m_membership_id member) (p_property_id prop) (map sql_text [x, y, z]),
       bands := bands (working c) @ inserted_bands i 0 (map sql_text [x, y, z])\<rparr>\<rparr>"
  have mv: "mask_values (as_list (Multi [x, y, z])) (p_input_mask prop) = Inr [x, y, z]"
    by (simp add: nomask as_list_def mask_values_None del: mask_values.simps)
  have vd: "valdict_of (p_input_mask prop) = Inr []"
    by (simp add: nomask valdict_of_def)
  have ft: "i + int (length [x, y, z]) \<le> max_int64" using fits(1) by simp
  note r = insert_then_get[OF nc wf ids unset mv ft vd c'_def]
  have g: "get_property c' self name (TagName tag) =
             Inr (Some (Multi [sql_text x, sql_text y, sql_text z]))"
    using r(2) by (simp add: valmap_def)
  show ?thesis
    unfolding r(1) fst_conv snd_conv using g by (simp add: c'_def)
qed

theorem set_list_then_get_witness:
  "native_case sample g1 ''Max Capacity'' ''System.System'' =
     Some (system_obj, \<lparr>m_membership_id = 1, m_parent_object_id = 1, m_child_object_id = 2\<rparr>,
           \<lparr>p_property_id = 1, p_collection_id = 1, p_name = ''Max Capacity'',
             p_input_mask = None, p_is_dynamic = Some ''false'', p_is_enabled = Some ''true''\<rparr>, []) \<and>
   consistent (working sample) \<and>
   last_ids sample = Inr (Some 3, Some 3) \<and>
   get_property sample g1 ''Max Capacity'' (TagName ''System.System'') = Inr None \<and>
   fst (set_property sample g1 ''Max Capacity'' (Multi [PInt 10, PInt 20, PStr ''30''])
          ''System.System'' None) = Inr () \<and>
   get_property
     (snd (set_property sample g1 ''Max Capacity'' (Multi [PInt 10, PInt 20, PStr ''30''])
             ''System.System'' None))
     g1 ''Max Capacity'' (TagName ''System.System'') = Inr (Some (Multi [''10'', ''20'', ''30''])) \<and>
   bands (working
     (snd (set_property sample g1 ''Max Capacity'' (Multi [PInt 10, PInt 20, PStr ''30''])
             ''System.System'' None)))
     = [\<lparr>b_data_id = 3, b_band_id = 2\<rparr>, \<lparr>b_data_id = 5, b_band_id = 2\<rparr>,
        \<lparr>b_data_id = 6, b_band_id = 3\<rparr>]"
proof -
  have nc: "native_case sample g1 ''Max Capacity'' ''System.System'' =
     Some (system_obj, \<lparr>m_membership_id = 1, m_parent_object_id = 1, m_child_object_id = 2\<rparr>,
           \<lparr>p_property_id = 1, p_collection_id = 1, p_name = ''Max Capacity'',
             p_input_mask = None, p_is_dynamic = Some ''false'', p_is_enabled = Some ''true''\<rparr>, [])"
    by code_simp
  have wf: "consistent (working sample)" by code_simp
  have ids: "last_ids sample = Inr (Some 3, Some 3)" by code_simp
  have ft: "(3::int) + 3 \<le> max_int64" by (simp add: max_int64_def)
  have unset: "get_property sample g1 ''Max Capacity'' (TagName ''System.System'') = Inr None"
    by code_simp
  have bnd: "bands (working sample) = [\<lparr>b_data_id = 3, b_band_id = 2\<rparr>]" by code_simp
  have tx: "sql_text (PInt 10) = ''10''" "sql_text (PInt 20) = ''20''" "sql_text (PStr ''30'') = ''30''"
    by code_simp+
  show ?thesis
    using nc wf ids unset
      set_list_then_get[OF nc wf ids ft ft _ unset, where x = "PInt 10" and y = "PInt 20"
        and z = "PStr ''30''" and dt = None]
    by (simp add: bnd tx)
qed

section \<open>Serialising the database\<close>

lemma map_of_dict_set: "map_of (dict_set k v kvs) = (map_of kvs)(k \<mapsto> v)"
  by (induction kvs) (auto simp: fun_eq_iff)

lemma map_of_foldl_dict_set:
  "map_of (foldl (\<lambda>m (k, v). dict_set k v m) acc kvs) k =
     (case map_of (rev kvs) k of None \<Rightarrow> map_of acc k | Some v \<Rightarrow> Some v)"
proof (induction kvs arbitrary: acc)
  case Nil
  then show ?case by simp
next
  case (Cons a kvs)
  obtain k0 v0 where a: "a = (k0, v0)" by (cases a)
  show ?case
    by (simp add: a Cons.IH map_of_dict_set map_of_append map_add_def split: option.splits)
qed

lemma sub_elements_emitted:
  "sub_elements (zip (map cn_name cols) cells) =
     map (\<lambda>(c, v). (cn_name c, py_format v)) (filter (\<lambda>(c, v). v \<noteq> Null) (zip cols cells))"
proof (induction cols arbitrary: cells)
  case Nil
  then show ?case by simp
next
  case (Cons c cols)
  show ?case
  proof (cases cells)
    case Nil
    then show ?thesis by simp
  next
    case (Cons v vs)
    then show ?thesis
      using Cons.IH[of vs] by (cases v) (simp_all add: py_format_def)
  qed
qed

lemma write_rows_emitted:
  "write_rows t (map cn_name cols) (map snd rows) =
     map (\<lambda>(rowid, cells). emitted_record t cols cells) rows"
  by (induction rows) (auto simp: emitted_record_def sub_elements_emitted)

lemma write_tables_emitted:
  "write_tables d ts = concat (map (emitted_table d) (filter (\<lambda>t. t \<noteq> META_TABLE) ts))"
  by (induction ts) (auto simp: emitted_table_def write_rows_emitted split: option.splits)

text \<open>
  C8. For a database whose tables have distinct names and whose metadata table records a
  root element and a namespace (when a name is recorded twice the last row counts, as in
  the dictionary the code builds), \<^verbatim>\<open>save\<close> returns a document: it opens and closes with
  the recorded root element and carries the recorded namespace; its records are those of
  the tables other than the metadata table, table after table in strictly ascending order
  of the names; the records of a table are its rows in the order of the table; and the
  fields of a record are the columns whose value is not \<^verbatim>\<open>NULL\<close>, in the order of the
  declarations, an empty text included.
\<close>

theorem save_document:
  assumes tables: "distinct (map fst (db_tables d))"
      and meta: "meta_rows d = Some kvs"
      and root: "map_of (rev kvs) (TextV ''root_element'') = Some (TextV root_element)"
      and nsp: "map_of (rev kvs) (TextV ''namespace'') = Some (TextV namespace)"
  shows "\<exists>doc ts. save d = Inr doc \<and>
           doc_root doc = root_element \<and> doc_namespace doc = namespace \<and>
           doc_close doc = root_element \<and>
           sorted_wrt (<) ts \<and> set ts = set (map fst (db_tables d)) - {META_TABLE} \<and>
           doc_records doc = concat (map (emitted_table d) ts)"
proof -
  define ts where "ts = filter (\<lambda>t. t \<noteq> META_TABLE) (sort (map fst (db_tables d)))"
  have rm: "read_meta d = foldl (\<lambda>m (k, v). dict_set k v m) [] kvs"
    by (simp add: read_meta_def meta)
  have r: "map_of (read_meta d) (TextV ''root_element'') = Some (TextV root_element)"
    by (simp add: rm map_of_foldl_dict_set root)
  have n: "map_of (read_meta d) (TextV ''namespace'') = Some (TextV namespace)"
    by (simp add: rm map_of_foldl_dict_set nsp)
  have sv: "save d = Inr \<lparr>doc_root = root_element, doc_namespace = namespace,
                          doc_records = concat (map (emitted_table d) ts),
                          doc_close = root_element\<rparr>"
    by (simp add: save_def Let_def r n py_format_def write_tables_emitted ts_def)
  have "sorted ts" "distinct ts"
    using tables by (simp_all add: ts_def sorted_wrt_filter)
  then have st: "sorted_wrt (<) ts" by (simp add: strict_sorted_iff)
  have se: "set ts = set (map fst (db_tables d)) - {META_TABLE}"
    by (auto simp: ts_def)
  show ?thesis
    using sv st se by (intro exI[of _ "\<lparr>doc_root = root_element, doc_namespace = namespace,
                          doc_records = concat (map (emitted_table d) ts),
                          doc_close = root_element\<rparr>"] exI[of _ ts]) simp
qed

text \<open>On a database with the tables \<^verbatim>\<open>object\<close>, \<^verbatim>\<open>plexos_meta\<close> and \<^verbatim>\<open>class\<close>, in that order;
  the first object has no description (\<^verbatim>\<open>NULL\<close>), the second an empty one.\<close>

theorem save_document_witness:
  "distinct (map fst (db_tables saved_db)) \<and>
   meta_rows saved_db =
     Some [(TextV ''namespace'', TextV ''http://tempuri.org/MasterDataSet.xsd''),
           (TextV ''root_element'', TextV ''MasterDataSet'')] \<and>
   (\<exists>doc ts. save saved_db = Inr doc \<and>
           doc_root doc = ''MasterDataSet'' \<and>
           doc_namespace doc = ''http://tempuri.org/MasterDataSet.xsd'' \<and>
           doc_close doc = ''MasterDataSet'' \<and>
           sorted_wrt (<) ts \<and> set ts = set (map fst (db_tables saved_db)) - {META_TABLE} \<and>
           doc_records doc = concat (map (emitted_table saved_db) ts)) \<and>
   save saved_db =
     Inr \<lparr>doc_root = ''MasterDataSet'', doc_namespace = ''http://tempuri.org/MasterDataSet.xsd'',
          doc_records =
            [(''t_class'', [(''class_id'', ''1''), (''name'', ''System'')]),
             (''t_class'', [(''class_id'', ''2''), (''name'', ''Generator'')]),
             (''t_object'', [(''object_id'', ''1''), (''class_id'', ''1''), (''name'', ''System'')]),
             (''t_object'', [(''object_id'', ''2''), (''class_id'', ''2''), (''name'', ''G1''),
                             (''description'', [])])],
          doc_close = ''MasterDataSet''\<rparr>"
proof -
  have t: "distinct (map fst (db_tables saved_db))" by code_simp
  have m: "meta_rows saved_db =
     Some [(TextV ''namespace'', TextV ''http://tempuri.org/MasterDataSet.xsd''),
           (TextV ''root_element'', TextV ''MasterDataSet'')]" by code_simp
  have r: "map_of (rev [(TextV ''namespace'', TextV ''http://tempuri.org/MasterDataSet.xsd''),
           (TextV ''root_element'', TextV ''MasterDataSet'')]) (TextV ''root_element'') =
           Some (TextV ''MasterDataSet'')" by simp
  have n: "map_of (rev [(TextV ''namespace'', TextV ''http://tempuri.org/MasterDataSet.xsd''),
           (TextV ''root_element'', TextV ''MasterDataSet'')]) (TextV ''namespace'') =
           Some (TextV ''http://tempuri.org/MasterDataSet.xsd'')" by simp
  have s: "save saved_db =
     Inr \<lparr>doc_root = ''MasterDataSet'', doc_namespace = ''http://tempuri.org/MasterDataSet.xsd'',
          doc_records =
            [(''t_class'', [(''class_id'', ''1''), (''name'', ''System'')]),
             (''t_class'', [(''class_id'', ''2''), (''name'', ''Generator'')]),
             (''t_object'', [(''object_id'', ''1''), (''class_id'', ''1''), (''name'', ''System'')]),
             (''t_object'', [(''object_id'', ''2''), (''class_id'', ''2''), (''name'', ''G1''),
                             (''description'', [])])],
          doc_close = ''MasterDataSet''\<rparr>" by code_simp
  from save_document[OF t m r n] t m s show ?thesis by blast
qed

lemma save_without_metadata:
  "meta_rows d = None \<Longrightarrow>
   save d = Inr \<lparr>doc_root = ''MasterDataSet'', doc_namespace = ''http://tempuri.org/MasterDataSet.xsd'',
                 doc_records = write_tables d (sort (map fst (db_tables d))),
                 doc_close = ''MasterDataSet''\<rparr>"
  by (simp add: save_def read_meta_def py_format_def)

section \<open>The rebuild of tables with foreign keys\<close>

text \<open>
  C7. The claim holds of what the rebuild is written to do, copy the rows as they are, but
  not of the code for a table whose own \<^verbatim>\<open>_id\<close> column first appears in a later record.
  For a new table the code makes that column the primary key and keeps it out of
  \<^verbatim>\<open>forkeys\<close>; for a new column of a known table it has no such test, so the column is
  added as a plain \<^verbatim>\<open>INTEGER\<close> and noted as a foreign key to its own table. The table is
  then rebuilt, and the rebuilt table declares the column \<^verbatim>\<open>INTEGER PRIMARY KEY\<close>: the
  copy gives the rows that had no identifier a fresh one and the table is read in the
  order of the identifiers from then on. On the sample file the first object has no
  \<^verbatim>\<open>object_id\<close> before the rebuild and the \<^verbatim>\<open>object_id\<close> 1 after it, and the objects \<^verbatim>\<open>B\<close>
  and \<^verbatim>\<open>A\<close>, read in the order of the file before, are read as \<^verbatim>\<open>A\<close>, \<^verbatim>\<open>B\<close> after. Both
  noted columns have their index.
\<close>

theorem rebuild_renumbers_late_key:
  "noted_forkeys id (iterparse plexos_ns late_key_file) =
     Inr [(''object'', ''class_id''), (''object'', ''object_id'')] \<and>
   table_columns (before_rebuild id (iterparse plexos_ns late_key_file)) ''object'' =
     Some [''name'', ''class_id'', ''object_id''] \<and>
   table_rows (before_rebuild id (iterparse plexos_ns late_key_file)) ''object'' =
     Some [(1, [TextV ''System'', IntV 1, Null]),
           (2, [TextV ''B'', IntV 1, IntV 7]),
           (3, [TextV ''A'', IntV 1, IntV 3])] \<and>
   table_columns (load id (iterparse plexos_ns late_key_file)) ''object'' =
     Some [''name'', ''class_id'', ''object_id''] \<and>
   table_rows (load id (iterparse plexos_ns late_key_file)) ''object'' =
     Some [(1, [TextV ''System'', IntV 1, IntV 1]),
           (3, [TextV ''A'', IntV 1, IntV 3]),
           (7, [TextV ''B'', IntV 1, IntV 7])] \<and>
   indexes_of (load id (iterparse plexos_ns late_key_file)) =
     [(''object_class_id_idx'', ''object'', [''class_id'']),
      (''object_object_id_idx'', ''object'', [''object_id'']),
      (''object_name_idx'', ''object'', [''name'']),
      (''object_class_id_and_name_idx'', ''object'', [''class_id'', ''name''])]"
  by code_simp

end
